theory Spec2Isabelle
  imports Complex_Main "HOL-Library.Char_ord" "HOL-Library.List_Lexorder"
begin

section \<open>DMX binning and the dmxparse summary of \<open>pint/utils.py\<close>\<close>

text \<open>
  Times (MJD, in days), frequencies (MHz), DMX values and covariance entries are IEEE doubles
  in the source; they are modelled as real numbers. A double that is not a finite number
  (\<open>nan\<close> from \<open>np.sqrt\<close> of a negative number, from a division by zero or from
  \<open>None\<close> stored into a float array) is the value \<open>None\<close> of type \<open>float\<close>.
\<close>

datatype error = RuntimeError | IndexError | ValueError

type_synonym float = "real option"

subsection \<open>The numpy operations that dmxparse uses\<close>

text \<open>A two-dimensional array: its shape and its entries.\<close>

record ndarray2 =
  nrows :: nat
  ncols :: nat
  elem :: "nat \<Rightarrow> nat \<Rightarrow> real"

text \<open>\<open>a.sum()\<close>: the sum of all entries.\<close>

definition np_sum :: "ndarray2 \<Rightarrow> real" where
  "np_sum a = (\<Sum>i<nrows a. \<Sum>j<ncols a. elem a i j)"

definition np_identity :: "nat \<Rightarrow> ndarray2" where
  "np_identity n = \<lparr>nrows = n, ncols = n, elem = (\<lambda>i j. if i = j then 1 else 0)\<rparr>"

definition np_ones :: "nat \<Rightarrow> nat \<Rightarrow> ndarray2" where
  "np_ones r c = \<lparr>nrows = r, ncols = c, elem = (\<lambda>i j. 1)\<rparr>"

text \<open>Array divided by a scalar, and the difference of two arrays of one shape.\<close>

definition np_div :: "ndarray2 \<Rightarrow> real \<Rightarrow> ndarray2" where
  "np_div a d = a\<lparr>elem := (\<lambda>i j. elem a i j / d)\<rparr>"

definition np_sub :: "ndarray2 \<Rightarrow> ndarray2 \<Rightarrow> ndarray2" where
  "np_sub a b = a\<lparr>elem := (\<lambda>i j. elem a i j - elem b i j)\<rparr>"

text \<open>\<open>np.dot\<close> of two 2-D arrays: the matrix product; shapes that do not fit raise
  ValueError.\<close>

definition np_dot :: "ndarray2 \<Rightarrow> ndarray2 \<Rightarrow> error + ndarray2" where
  "np_dot a b =
     (if ncols a \<noteq> nrows b then Inl ValueError
      else Inr \<lparr>nrows = nrows a, ncols = ncols b,
                elem = (\<lambda>i j. \<Sum>k<ncols a. elem a i k * elem b k j)\<rparr>)"

text \<open>\<open>np.sqrt\<close> of a double: \<open>nan\<close> (with a warning, no exception) below zero.\<close>

definition np_sqrt :: "real \<Rightarrow> float" where
  "np_sqrt x = (if x < 0 then None else Some (sqrt x))"

text \<open>A numpy double divided by a Python float: dividing by zero gives \<open>inf\<close> or
  \<open>nan\<close> with a warning, not an exception.\<close>

definition fdiv :: "float \<Rightarrow> real \<Rightarrow> float" where
  "fdiv x d = (case x of None \<Rightarrow> None | Some v \<Rightarrow> if d = 0 then None else Some (v / d))"

text \<open>\<open>np.mean\<close> of a one-dimensional array of doubles. dmxparse calls it on the DMX values
  only after it has checked that there is at least one.\<close>

definition np_mean :: "real list \<Rightarrow> real" where
  "np_mean xs = sum_list xs / real (length xs)"

text \<open>\<open>np.where(mask)[0]\<close>: the positions that hold True, ascending.\<close>

definition np_where :: "bool list \<Rightarrow> nat list" where
  "np_where flags = filter (\<lambda>i. flags ! i) [0..<length flags]"

text \<open>
  \<open>np.insert(arr, obj, value)\<close> with a sequence of indices \<open>obj\<close>: each index is a position
  of the array \<^emph>\<open>before\<close> the insertion, and the value is inserted before that position; an
  index may be \<open>len(arr)\<close> (insertion at the end); a larger one raises IndexError.
  \<open>insert_before j arr obj v\<close> walks the original array from position \<open>j\<close>.
\<close>

fun insert_before :: "nat \<Rightarrow> 'a list \<Rightarrow> nat list \<Rightarrow> 'a \<Rightarrow> 'a list" where
  "insert_before j [] obj v = replicate (count_list obj j) v"
| "insert_before j (x # xs) obj v =
     replicate (count_list obj j) v @ x # insert_before (Suc j) xs obj v"

definition np_insert :: "'a list \<Rightarrow> nat list \<Rightarrow> 'a \<Rightarrow> error + 'a list" where
  "np_insert arr obj v =
     (if \<exists>i \<in> set obj. length arr < i then Inl IndexError
      else Inr (insert_before 0 arr obj v))"

text \<open>
  The array of raw uncertainties: a plain array, or, when some bin is frozen, the masked
  array \<open>np.ma.array(DMX_Errs, mask=mask_idxs)\<close> (its data and its mask).
\<close>

datatype errarray = Plain "float list" | Masked "real list" "bool list"

fun len_arr :: "errarray \<Rightarrow> nat" where
  "len_arr (Plain xs) = length xs"
| "len_arr (Masked d m) = length d"

text \<open>
  \<open>np.mean\<close> of that array. The mean of a plain array is a double; a masked array averages
  its unmasked entries, and when there is none the result is the constant \<open>np.ma.masked\<close>.
\<close>

datatype scalar = Num float | MaskedConst

definition unmasked :: "real list \<Rightarrow> bool list \<Rightarrow> real list" where
  "unmasked d m = map fst (filter (\<lambda>(e, fz). \<not> fz) (zip d m))"

fun all_some :: "float list \<Rightarrow> real list option" where
  "all_some [] = Some []"
| "all_some (None # xs) = None"
| "all_some (Some x # xs) = (case all_some xs of None \<Rightarrow> None | Some ys \<Rightarrow> Some (x # ys))"

fun mean_arr :: "errarray \<Rightarrow> scalar" where
  "mean_arr (Plain xs) =
     (case all_some xs of None \<Rightarrow> Num None
      | Some ys \<Rightarrow> if ys = [] then Num None else Num (Some (np_mean ys)))"
| "mean_arr (Masked d m) =
     (if unmasked d m = [] then MaskedConst else Num (Some (np_mean (unmasked d m))))"

text \<open>
  \<open>x * DMX_units\<close>, the product with an astropy unit, makes a Quantity of the data of \<open>x\<close>.
  A masked array loses its mask: the Quantity holds the data of all its entries. The
  constant \<open>np.ma.masked\<close> has the data 0.0. (The unit itself is not modelled.)
\<close>

fun array_times_units :: "errarray \<Rightarrow> float list" where
  "array_times_units (Plain xs) = xs"
| "array_times_units (Masked d m) = map Some d"

fun scalar_times_units :: "scalar \<Rightarrow> float" where
  "scalar_times_units (Num x) = x"
| "scalar_times_units MaskedConst = Some 0"

subsection \<open>The fitter and its DMX parameters\<close>

text \<open>
  One DMX bin of \<open>fitter.model\<close>: the label \<open>ii\<close> after \<open>DMX_\<close>, and what dmxparse reads
  through \<open>getattr\<close>: \<open>DMX_ii.value\<close>, \<open>DMX_ii.frozen\<close>, \<open>DMX_ii.uncertainty_value\<close>,
  \<open>DMXR1_ii.value\<close> and \<open>DMXR2_ii.value\<close>. The bins are listed in the order of
  \<open>fitter.model.params\<close>, and every bin, frozen or not, is taken to carry a number as
  its \<open>uncertainty_value\<close>.
\<close>

record dmx_bin =
  epoch :: string
  val :: real
  frozen :: bool
  uncertainty_value :: real
  dmxr1 :: real
  dmxr2 :: real

text \<open>
  The fitter: its model's DMX bins, and \<open>parameter_covariance_matrix\<close> when it has the
  attribute. The covariance object is used through \<open>get_label_matrix(labels).matrix\<close> only.
\<close>

record fitter =
  bins :: "dmx_bin list"
  parameter_covariance_matrix :: "(string list \<Rightarrow> ndarray2) option"

record dmx_out =
  dmxs :: "real list"
  dmx_verrs :: "float list"
  dmxeps :: "real list"
  r1s :: "real list"
  r2s :: "real list"
  bin_keys :: "string list"
  mean_dmx :: real
  avg_dm_err :: float

subsection \<open>dmxparse\<close>

text \<open>The labels that dmxparse hands to \<open>get_label_matrix\<close>:
  \<open>sorted(["DMX_" + x for x in dmx_epochs])\<close>.\<close>

definition cov_labels :: "string list \<Rightarrow> string list" where
  "cov_labels dmx_epochs = sort (map (\<lambda>x. ''DMX_'' @ x) dmx_epochs)"

text \<open>\<open>m = np.identity(n) - np.ones((n, n)) / float(n)\<close>\<close>

definition demean :: "nat \<Rightarrow> ndarray2" where
  "demean n = np_sub (np_identity n) (np_div (np_ones n n) (real n))"

text \<open>
  The branch of dmxparse that runs when the fitter has a covariance matrix. It yields
  \<open>DMX_mean_err\<close> and \<open>DMX_vErrs\<close>; \<open>ccm\<close> is \<open>cc.matrix\<close>.
\<close>

definition fit_vErrs :: "nat \<Rightarrow> ndarray2 \<Rightarrow> error + float list" where
  "fit_vErrs n ccm =
     (case np_dot (demean n) ccm of
        Inl e \<Rightarrow> Inl e
      | Inr mc \<Rightarrow>
          (case np_dot mc (demean n) of
             Inl e \<Rightarrow> Inl e
           | Inr cc \<Rightarrow> Inr (map (\<lambda>i. np_sqrt (elem cc i i)) [0..<n])))"

definition with_covariance ::
  "bool list \<Rightarrow> ndarray2 \<Rightarrow> error + (scalar \<times> errarray)" where
  "with_covariance mask_idxs ccm =
     (let n = length mask_idxs - length (filter (\<lambda>fz. fz) mask_idxs);
          DMX_mean_err = fdiv (np_sqrt (np_sum ccm)) (real n)
      in case fit_vErrs n ccm of
           Inl e \<Rightarrow> Inl e
         | Inr DMX_vErrs \<Rightarrow>
             if True \<in> set mask_idxs
             then (case np_insert DMX_vErrs (np_where mask_idxs) None of
                     Inl e \<Rightarrow> Inl e
                   | Inr v \<Rightarrow> Inr (Num DMX_mean_err, Plain v))
             else Inr (Num DMX_mean_err, Plain DMX_vErrs))"

text \<open>
  \<open>dmxparse\<close> with \<open>save = False\<close>. The returned dictionary holds the arrays and scalars
  times their units; of those products only the ones of \<open>DMX_vErrs\<close> and \<open>DMX_mean_err\<close>,
  which may be masked, change the data.
\<close>

definition dmxparse :: "fitter \<Rightarrow> error + dmx_out" where
  "dmxparse f =
     (let dmx_epochs = map epoch (bins f) in
      if dmx_epochs = [] then Inl RuntimeError
      else
        let DMX_keys = map (\<lambda>ii. ''DMX_'' @ ii) dmx_epochs;
            DMXs = map val (bins f);
            mask_idxs = map frozen (bins f);
            errs = map uncertainty_value (bins f);
            DMX_R1 = map dmxr1 (bins f);
            DMX_R2 = map dmxr2 (bins f);
            DMX_center_MJD = map (\<lambda>b. (dmxr1 b + dmxr2 b) / 2) (bins f);
            DMX_Errs = (if True \<in> set mask_idxs then Masked errs mask_idxs
                        else Plain (map Some errs));
            DMX_mean = np_mean DMXs
        in case (case parameter_covariance_matrix f of
                   Some get_label_matrix \<Rightarrow>
                     with_covariance mask_idxs (get_label_matrix (cov_labels dmx_epochs))
                 | None \<Rightarrow> Inr (mean_arr DMX_Errs, DMX_Errs)) of
             Inl e \<Rightarrow> Inl e
           | Inr (DMX_mean_err, DMX_vErrs) \<Rightarrow>
               if length DMXs \<noteq> len_arr DMX_Errs \<or> length DMXs \<noteq> len_arr DMX_vErrs
               then Inl RuntimeError
               else Inr \<lparr>dmxs = map (\<lambda>v. v - DMX_mean) DMXs,
                         dmx_verrs = array_times_units DMX_vErrs,
                         dmxeps = DMX_center_MJD,
                         r1s = DMX_R1,
                         r2s = DMX_R2,
                         bin_keys = DMX_keys,
                         mean_dmx = DMX_mean,
                         avg_dm_err = scalar_times_units DMX_mean_err\<rparr>)"

subsection \<open>The de-meaning projector as the specification words it\<close>

text \<open>
  \<open>M = I - (1/n) J\<close> with \<open>J\<close> the all-ones matrix, and the entries of \<open>M C M\<^sup>t\<close>; these two
  follow the specification, and are compared below with what the code computes.
\<close>

definition projector :: "nat \<Rightarrow> nat \<Rightarrow> nat \<Rightarrow> real" where
  "projector n i j = (if i = j then 1 else 0) - 1 / real n"

definition MCMt :: "nat \<Rightarrow> (nat \<Rightarrow> nat \<Rightarrow> real) \<Rightarrow> nat \<Rightarrow> nat \<Rightarrow> real" where
  "MCMt n c i j = (\<Sum>k<n. \<Sum>l<n. projector n i k * c k l * projector n j l)"

section \<open>The two segmenters\<close>

subsection \<open>Observations and DMX ranges\<close>

text \<open>One TOA: its time \<open>toas.get_mjds()[i]\<close> in days and its frequency
  \<open>toas.table["freq"][i]\<close> in MHz. The TOAs are listed in the order of the table.\<close>

record toa =
  mjd :: real
  freq :: real

text \<open>The class \<open>dmxrange\<close>: the low-band and high-band days of a bin and its extent.\<close>

record dmxrange =
  los :: "real list"
  his :: "real list"
  min_mjd :: real
  max_mjd :: real

text \<open>Python's \<open>min\<close> and \<open>max\<close> of a list, and \<open>ndarray.max()\<close>. They raise ValueError on
  an empty argument; every call below is on a list that is known not to be empty, except in
  the constructor, which checks.\<close>

definition py_min :: "real list \<Rightarrow> real" where
  "py_min xs = Min (set xs)"

definition py_max :: "real list \<Rightarrow> real" where
  "py_max xs = Max (set xs)"

text \<open>\<open>dmxrange.__init__\<close>: the extent is that of all days, widened by 0.001 day.\<close>

definition dmxrange_init :: "real list \<Rightarrow> real list \<Rightarrow> error + dmxrange" where
  "dmxrange_init lofreqs hifreqs =
     (if lofreqs @ hifreqs = [] then Inl ValueError
      else Inr \<lparr>los = lofreqs, his = hifreqs,
                min_mjd = py_min (lofreqs @ hifreqs) - 1 / 1000,
                max_mjd = py_max (lofreqs @ hifreqs) + 1 / 1000\<rparr>)"

subsection \<open>The legacy segmenter \<open>dmx_ranges_old\<close>\<close>

text \<open>\<open>ndarray.round(1)\<close>: one decimal, halves to the even neighbour; \<open>np.unique\<close>: the
  distinct values, ascending.\<close>

definition rint :: "real \<Rightarrow> int" where
  "rint x =
     (let f = \<lfloor>x\<rfloor>; r = x - of_int f
      in if r < 1 / 2 then f else if 1 / 2 < r then f + 1 else if even f then f else f + 1)"

definition np_round1 :: "real \<Rightarrow> real" where
  "np_round1 x = of_int (rint (x * 10)) / 10"

definition np_unique :: "real list \<Rightarrow> real list" where
  "np_unique xs = sort (remdups xs)"

text \<open>The high-band days that the \<open>ii\<close>-th low-band day keeps: those nearer than
  \<open>max_diff\<close>, and strictly nearer to it than to the low-band day before and the one after.\<close>

definition hi_close_of :: "real list \<Rightarrow> real list \<Rightarrow> real \<Rightarrow> nat \<Rightarrow> real list" where
  "hi_close_of loMJDs hiMJDs max_diff ii =
     (let loMJD = loMJDs ! ii;
          hi_close = filter (\<lambda>h. \<bar>h - loMJD\<bar> < max_diff) hiMJDs;
          hi_close = (if 0 < ii
                      then filter (\<lambda>h. \<bar>h - loMJD\<bar> < \<bar>h - loMJDs ! (ii - 1)\<bar>) hi_close
                      else hi_close);
          hi_close = (if ii < length loMJDs - 1
                      then filter (\<lambda>h. \<bar>h - loMJD\<bar> < \<bar>h - loMJDs ! (ii + 1)\<bar>) hi_close
                      else hi_close)
      in hi_close)"

text \<open>The first loop, over \<open>enumerate(loMJDs)\<close>; the state is \<open>DMXs\<close> and \<open>bad_los\<close>.\<close>

fun pair_loop ::
  "real list \<Rightarrow> real list \<Rightarrow> real \<Rightarrow> nat list \<Rightarrow> dmxrange list \<times> real list
     \<Rightarrow> error + (dmxrange list \<times> real list)" where
  "pair_loop loMJDs hiMJDs max_diff [] st = Inr st"
| "pair_loop loMJDs hiMJDs max_diff (ii # rest) (DMXs, bad_los) =
     (let hi_close = hi_close_of loMJDs hiMJDs max_diff ii
      in if hi_close \<noteq> []
         then (case dmxrange_init [loMJDs ! ii] hi_close of
                 Inl e \<Rightarrow> Inl e
               | Inr d \<Rightarrow> pair_loop loMJDs hiMJDs max_diff rest (DMXs @ [d], bad_los))
         else pair_loop loMJDs hiMJDs max_diff rest (DMXs, bad_los @ [loMJDs ! ii]))"

text \<open>
  \<open>for bad_lo in bad_los\<close> runs over a Python set, in an order that the language leaves
  open: the model takes a ranking of the days and visits the distinct days by rank.
\<close>

definition set_iter :: "(real \<Rightarrow> nat) \<Rightarrow> real list \<Rightarrow> real list" where
  "set_iter rank xs = sort_key rank (remdups xs)"

text \<open>The inner loop over \<open>enumerate(DMXs)\<close>; the state is \<open>absmindiff\<close> and \<open>ind\<close>.\<close>

definition scan_step :: "real \<Rightarrow> real \<Rightarrow> real \<times> nat \<Rightarrow> nat \<times> dmxrange \<Rightarrow> real \<times> nat" where
  "scan_step bad_lo max_diff st p =
     (case st of (absmindiff, ind) \<Rightarrow>
      case p of (ii, DMX) \<Rightarrow>
        if \<bar>bad_lo - min_mjd DMX\<bar> < max_diff \<and> \<bar>bad_lo - max_mjd DMX\<bar> < max_diff
        then (let mindiff = min \<bar>bad_lo - min_mjd DMX\<bar> \<bar>bad_lo - max_mjd DMX\<bar>
              in if mindiff < absmindiff then (mindiff, ii) else (absmindiff, ind))
        else (absmindiff, ind))"

definition scan :: "real \<Rightarrow> real \<Rightarrow> dmxrange list \<Rightarrow> real \<times> nat" where
  "scan bad_lo max_diff DMXs =
     fold (\<lambda>p st. scan_step bad_lo max_diff st p) (enumerate 0 DMXs) (2 * max_diff, 0)"

text \<open>The body of the rescue loop for one \<open>bad_lo\<close>: the chosen bin takes the day and its
  extent is set to that of its days. \<open>DMXs[ind]\<close> raises IndexError when there is no such bin.\<close>

definition rescue :: "real \<Rightarrow> real \<Rightarrow> dmxrange list \<Rightarrow> error + dmxrange list" where
  "rescue max_diff bad_lo DMXs =
     (case scan bad_lo max_diff DMXs of (absmindiff, ind) \<Rightarrow>
        if absmindiff < max_diff
        then (if ind < length DMXs
              then (let d = DMXs ! ind;
                        d = d\<lparr>los := los d @ [bad_lo]\<rparr>;
                        d = d\<lparr>min_mjd := py_min (los d @ his d)\<rparr>;
                        d = d\<lparr>max_mjd := py_max (los d @ his d)\<rparr>
                    in Inr (DMXs[ind := d]))
              else Inl IndexError)
        else Inr DMXs)"

fun rescue_loop :: "real \<Rightarrow> real list \<Rightarrow> dmxrange list \<Rightarrow> error + dmxrange list" where
  "rescue_loop max_diff [] DMXs = Inr DMXs"
| "rescue_loop max_diff (bad_lo # rest) DMXs =
     (case rescue max_diff bad_lo DMXs of
        Inl e \<Rightarrow> Inl e
      | Inr DMXs' \<Rightarrow> rescue_loop max_diff rest DMXs')"

text \<open>
  \<open>dmx_ranges_old\<close>. It returns the mask and a DMX component whose ranges are
  \<open>DMX.min - offset\<close> and \<open>DMX.max + offset\<close> of the bins; the model returns the mask and the
  bins.
\<close>

definition dmx_ranges_old ::
  "(real \<Rightarrow> nat) \<Rightarrow> toa list \<Rightarrow> real \<Rightarrow> real \<Rightarrow> real \<Rightarrow> error + (bool list \<times> dmxrange list)" where
  "dmx_ranges_old rank toas divide_freq offset max_diff =
     (let loMJDs = map mjd (filter (\<lambda>t. freq t < divide_freq) toas);
          hiMJDs = map mjd (filter (\<lambda>t. divide_freq < freq t) toas);
          loMJDs = np_unique (map np_round1 loMJDs);
          hiMJDs = np_unique (map np_round1 hiMJDs)
      in case pair_loop loMJDs hiMJDs max_diff [0..<length loMJDs] ([], []) of
           Inl e \<Rightarrow> Inl e
         | Inr (DMXs, bad_los) \<Rightarrow>
             (case rescue_loop max_diff (set_iter rank bad_los) DMXs of
                Inl e \<Rightarrow> Inl e
              | Inr DMXs \<Rightarrow>
                  Inr (map (\<lambda>t. \<exists>DMX \<in> set DMXs.
                              min_mjd DMX - offset < mjd t \<and> mjd t < max_mjd DMX + offset) toas,
                       DMXs)))"

subsection \<open>The windowed segmenter \<open>dmx_ranges\<close>\<close>

lemma cursor_advances:
  assumes "b = filter (\<lambda>t. prev < mjd t \<and> mjd t \<le> upper) toas" and "b \<noteq> []"
  shows "length (filter (\<lambda>t. py_max (map mjd b) < mjd t) toas)
           < length (filter (\<lambda>t. prev < mjd t) toas)"
proof -
  let ?m = "py_max (map mjd b)"
  have "?m \<in> set (map mjd b)"
    unfolding py_max_def using assms(2) by (intro Max_in) simp_all
  then obtain t where t: "t \<in> set toas" "prev < mjd t" "mjd t = ?m"
    using assms(1) by auto
  have "filter (\<lambda>t. ?m < mjd t) toas = filter (\<lambda>t. ?m < mjd t) (filter (\<lambda>t. prev < mjd t) toas)"
    using t by (auto intro!: filter_cong)
  moreover have "length (filter (\<lambda>t. ?m < mjd t) (filter (\<lambda>t. prev < mjd t) toas))
                   < length (filter (\<lambda>t. prev < mjd t) toas)"
    using t by (intro length_filter_less[of t]) auto
  ultimately show ?thesis by simp
qed

text \<open>The \<open>while True\<close> loop; the state is \<open>prevbinR2\<close> and \<open>DMXs\<close>.\<close>

function dmx_ranges_loop ::
  "toa list \<Rightarrow> real \<Rightarrow> real \<Rightarrow> real \<Rightarrow> dmxrange list \<Rightarrow> error + dmxrange list" where
  "dmx_ranges_loop toas divide_freq binwidth prevbinR2 DMXs =
     (if \<not> (\<exists>t \<in> set toas. prevbinR2 < mjd t) then Inr DMXs
      else
        let startMJD = mjd (hd (filter (\<lambda>t. prevbinR2 < mjd t) toas));
            bin = filter (\<lambda>t. prevbinR2 < mjd t \<and> mjd t \<le> startMJD + binwidth) toas
        in if bin = [] then Inr DMXs
           else
             let loMJDs = map mjd (filter (\<lambda>t. freq t < divide_freq) bin);
                 hiMJDs = map mjd (filter (\<lambda>t. divide_freq \<le> freq t) bin)
             in if (\<exists>t \<in> set bin. freq t < divide_freq) \<and> (\<exists>t \<in> set bin. divide_freq < freq t)
                then (case dmxrange_init loMJDs hiMJDs of
                        Inl e \<Rightarrow> Inl e
                      | Inr d \<Rightarrow>
                          dmx_ranges_loop toas divide_freq binwidth (py_max (map mjd bin))
                            (DMXs @ [d]))
                else dmx_ranges_loop toas divide_freq binwidth (py_max (map mjd bin)) DMXs)"
  by pat_completeness auto
termination
  by (relation "measure (\<lambda>(toas, divide_freq, binwidth, prevbinR2, DMXs).
        length (filter (\<lambda>t. prevbinR2 < mjd t) toas))")
     (auto intro: cursor_advances)

declare dmx_ranges_loop.simps [simp del]

text \<open>\<open>dmx_ranges\<close>: \<open>MJDs[0]\<close> raises IndexError when there is no TOA. As above, the model
  returns the mask and the bins.\<close>

definition dmx_ranges :: "toa list \<Rightarrow> real \<Rightarrow> real \<Rightarrow> error + (bool list \<times> dmxrange list)" where
  "dmx_ranges toas divide_freq binwidth =
     (case toas of
        [] \<Rightarrow> Inl IndexError
      | t0 # _ \<Rightarrow>
          (case dmx_ranges_loop toas divide_freq binwidth (mjd t0 - 1 / 1000) [] of
             Inl e \<Rightarrow> Inl e
           | Inr DMXs \<Rightarrow>
               Inr (map (\<lambda>t. \<exists>DMX \<in> set DMXs. min_mjd DMX \<le> mjd t \<and> mjd t \<le> max_mjd DMX) toas,
                    DMXs)))"

text \<open>
  The batch of one iteration, \<open>MJDs[binidx]\<close>: the TOAs later than \<open>prev\<close> and no later than
  \<open>binwidth\<close> after the first of them in the table; and the bin that the constructor makes of
  a batch.
\<close>

definition window :: "toa list \<Rightarrow> real \<Rightarrow> real \<Rightarrow> toa list" where
  "window toas binwidth prev =
     filter (\<lambda>t. prev < mjd t \<and>
                 mjd t \<le> mjd (hd (filter (\<lambda>t. prev < mjd t) toas)) + binwidth) toas"

definition batch_bin :: "real \<Rightarrow> toa list \<Rightarrow> dmxrange" where
  "batch_bin divide_freq b =
     \<lparr>los = map mjd (filter (\<lambda>t. freq t < divide_freq) b),
      his = map mjd (filter (\<lambda>t. divide_freq \<le> freq t) b),
      min_mjd = Min (mjd ` set b) - 1 / 1000,
      max_mjd = Max (mjd ` set b) + 1 / 1000\<rparr>"

text \<open>A bin with days of both bands, taken from the given low-band and high-band days.\<close>

definition both_bands :: "real list \<Rightarrow> real list \<Rightarrow> dmxrange \<Rightarrow> bool" where
  "both_bands lo hi d \<longleftrightarrow>
     los d \<noteq> [] \<and> his d \<noteq> [] \<and> set (los d) \<subseteq> set lo \<and> set (his d) \<subseteq> set hi"

subsection \<open>Example inputs\<close>

definition four_bins :: fitter where
  "four_bins =
     \<lparr>bins = map (\<lambda>(k, v). \<lparr>epoch = k, val = v, frozen = False, uncertainty_value = 1 / 10,
                             dmxr1 = 0, dmxr2 = 1\<rparr>)
                  [(''0001'', 1), (''0002'', 2), (''0003'', 3), (''0004'', 4)],
      parameter_covariance_matrix = None\<rparr>"

definition bin_at :: "string \<Rightarrow> real \<Rightarrow> bool \<Rightarrow> real \<Rightarrow> dmx_bin" where
  "bin_at k v fz e =
     \<lparr>epoch = k, val = v, frozen = fz, uncertainty_value = e, dmxr1 = 0, dmxr2 = 1\<rparr>"

definition diag2 :: ndarray2 where
  "diag2 = \<lparr>nrows = 2, ncols = 2, elem = (\<lambda>i j. if i = j then 2 else 0)\<rparr>"

definition two_fit :: fitter where
  "two_fit =
     \<lparr>bins = [bin_at ''0001'' 1 False (1 / 10), bin_at ''0002'' 3 False (3 / 10)],
      parameter_covariance_matrix = Some (\<lambda>labels. diag2)\<rparr>"

definition one_frozen :: fitter where
  "one_frozen =
     \<lparr>bins = [bin_at ''0001'' 1 False (1 / 10), bin_at ''0002'' 2 True (1 / 2),
              bin_at ''0003'' 3 False (3 / 10)],
      parameter_covariance_matrix = None\<rparr>"

definition two_frozen_first :: fitter where
  "two_frozen_first =
     \<lparr>bins = [bin_at ''0001'' 1 True 0, bin_at ''0002'' 2 True 0,
              bin_at ''0003'' 3 False (1 / 10), bin_at ''0004'' 4 False (3 / 10)],
      parameter_covariance_matrix = Some (\<lambda>labels. diag2)\<rparr>"

definition two_frozen_last :: fitter where
  "two_frozen_last =
     \<lparr>bins = [bin_at ''0001'' 1 False (1 / 10), bin_at ''0002'' 2 False (3 / 10),
              bin_at ''0003'' 3 True 0, bin_at ''0004'' 4 True 0],
      parameter_covariance_matrix = Some (\<lambda>labels. diag2)\<rparr>"

text \<open>A provider that returns a matrix with one row and one column for every label it is
  asked for.\<close>

definition identity_provider :: "string list \<Rightarrow> ndarray2" where
  "identity_provider labels = np_identity (length labels)"

definition one_frozen_cov :: fitter where
  "one_frozen_cov = one_frozen\<lparr>parameter_covariance_matrix := Some identity_provider\<rparr>"

definition obs :: "real \<Rightarrow> real \<Rightarrow> toa" where
  "obs t f = \<lparr>mjd = t, freq = f\<rparr>"

definition low_high :: "toa list" where
  "low_high = [obs 0 500, obs (1 / 20) 1500]"

definition low_at_divide :: "toa list" where
  "low_at_divide = [obs 0 500, obs (1 / 20) 1000]"

definition orphan_low :: "toa list" where
  "orphan_low = [obs 0 500, obs 1 500, obs (1 / 5) 1500]"

text \<open>A provider that addresses its matrix by label: the variance of each requested label
  on the diagonal, in the order of the request.\<close>

definition label_variance :: "string \<Rightarrow> real" where
  "label_variance l =
     (if l = ''DMX_0001'' then 2 else if l = ''DMX_0002'' then 23
      else if l = ''DMX_0003'' then 50 else 0)"

definition by_label :: "string list \<Rightarrow> ndarray2" where
  "by_label labels =
     \<lparr>nrows = length labels, ncols = length labels,
      elem = (\<lambda>i j. if i = j then label_variance (labels ! i) else 0)\<rparr>"

text \<open>A model that lists \<open>DMX_0003\<close> before \<open>DMX_0002\<close>.\<close>

definition listed_out_of_order :: fitter where
  "listed_out_of_order =
     \<lparr>bins = [bin_at ''0001'' 1 False (1 / 10), bin_at ''0003'' 3 False (3 / 10),
              bin_at ''0002'' 2 False (2 / 10)],
      parameter_covariance_matrix = Some by_label\<rparr>"

section \<open>Properties\<close>

subsection \<open>Lemmas about dmxparse\<close>

lemma demean_shape [simp]: "nrows (demean n) = n" "ncols (demean n) = n"
  by (simp_all add: demean_def np_sub_def np_div_def np_identity_def np_ones_def)

lemma demean_elem [simp]: "elem (demean n) i j = projector n i j"
  by (simp add: demean_def np_sub_def np_div_def np_identity_def np_ones_def projector_def)

lemma projector_sym: "projector n i j = projector n j i"
  by (auto simp: projector_def)

lemma fit_vErrs_square:
  assumes "nrows c = n" "ncols c = n"
  shows "fit_vErrs n c =
    Inr (map (\<lambda>i. np_sqrt (\<Sum>k<n. (\<Sum>l<n. projector n i l * elem c l k) * projector n k i)) [0..<n])"
  using assms by (simp add: fit_vErrs_def np_dot_def)

lemma code_product_is_MCMt:
  "(\<Sum>k<n. (\<Sum>l<n. projector n i l * c l k) * projector n k i) = MCMt n c i i"
proof -
  have "(\<Sum>k<n. (\<Sum>l<n. projector n i l * c l k) * projector n k i)
      = (\<Sum>k<n. \<Sum>l<n. projector n i l * c l k * projector n i k)"
    by (simp add: sum_distrib_right projector_sym[of n _ i])
  also have "\<dots> = (\<Sum>l<n. \<Sum>k<n. projector n i l * c l k * projector n i k)"
    by (rule sum.swap)
  finally show ?thesis by (simp add: MCMt_def)
qed

lemma MCMt_diagonal:
  assumes "i < n" and c: "\<And>k l. k < n \<Longrightarrow> l < n \<Longrightarrow> c k l = (if k = l then v else 0)"
  shows "MCMt n c i i = v * (1 - 1 / real n)"
proof -
  have n0: "real n \<noteq> 0" using assms(1) by simp
  have inner: "(\<Sum>l<n. projector n i k * c k l * projector n i l)
             = projector n i k * v * projector n i k" if "k < n" for k
  proof -
    have "(\<Sum>l<n. projector n i k * c k l * projector n i l)
        = (\<Sum>l<n. if l = k then projector n i k * v * projector n i k else 0)"
      using that by (intro sum.cong) (auto simp: c)
    also have "\<dots> = projector n i k * v * projector n i k"
      using that by simp
    finally show ?thesis .
  qed
  have "MCMt n c i i = (\<Sum>k<n. projector n i k * v * projector n i k)"
    unfolding MCMt_def using inner by (intro sum.cong) auto
  also have "\<dots> = (\<Sum>k<n. (if k = i then v * (1 - 2 / real n) else 0) + v / (real n)\<^sup>2)"
    by (intro sum.cong) (auto simp: projector_def power2_eq_square field_simps)
  also have "\<dots> = v * (1 - 2 / real n) + real n * (v / (real n)\<^sup>2)"
    using assms(1) by (simp add: sum.distrib)
  also have "\<dots> = v * (1 - 1 / real n)"
    using n0 by (simp add: power2_eq_square field_simps)
  finally show ?thesis .
qed

lemma count_fit:
  "length (map frozen bs) - length (filter (\<lambda>fz. fz) (map frozen bs))
     = length (filter (\<lambda>b. \<not> frozen b) bs)"
proof -
  have "length (filter (\<lambda>b. frozen b) bs) + length (filter (\<lambda>b. \<not> frozen b) bs) = length bs"
    by (rule sum_length_filter_compl)
  then show ?thesis by (simp add: filter_map comp_def)
qed

lemma fit_vErrs_MCMt:
  assumes "nrows c = n" "ncols c = n"
  shows "fit_vErrs n c = Inr (map (\<lambda>i. np_sqrt (MCMt n (elem c) i i)) [0..<n])"
  using fit_vErrs_square[OF assms] by (simp add: code_product_is_MCMt)

lemma no_frozen_count:
  assumes "True \<notin> set (map frozen bs)"
  shows "length (filter (\<lambda>b. \<not> frozen b) bs) = length bs"
  using assms by (induction bs) auto

lemma all_some_map_Some: "all_some (map (\<lambda>x. Some (g x)) xs) = Some (map g xs)"
  by (induction xs) simp_all

lemma unmasked_fit:
  "unmasked (map uncertainty_value bs) (map frozen bs)
     = map uncertainty_value (filter (\<lambda>b. \<not> frozen b) bs)"
  by (induction bs) (simp_all add: unmasked_def)

lemma insert_before_no_index: "insert_before j xs [] v = xs"
  by (induction xs arbitrary: j) simp_all

lemma length_filter_split_first:
  "length (filter (\<lambda>i. j \<le> i \<and> i \<le> j + Suc k) obj)
     = count_list obj j + length (filter (\<lambda>i. Suc j \<le> i \<and> i \<le> Suc j + k) obj)"
  by (induction obj) auto

lemma length_insert_before:
  "length (insert_before j xs obj v)
     = length xs + length (filter (\<lambda>i. j \<le> i \<and> i \<le> j + length xs) obj)"
proof (induction xs arbitrary: j)
  case Nil
  have "count_list obj j = length (filter (\<lambda>i. j \<le> i \<and> i \<le> j) obj)"
    by (induction obj) auto
  then show ?case by simp
next
  case (Cons x xs)
  show ?case
    using length_filter_split_first[of j "length xs" obj] by (simp add: Cons.IH)
qed

lemma length_np_where: "length (np_where flags) = length (filter (\<lambda>b. b) flags)"
proof -
  have "filter (\<lambda>b. b) flags = filter (\<lambda>b. b) (map (\<lambda>i. flags ! i) [0..<length flags])"
    by (simp add: map_nth)
  also have "\<dots> = map (\<lambda>i. flags ! i) (filter (\<lambda>i. flags ! i) [0..<length flags])"
    by (simp add: filter_map comp_def)
  finally show ?thesis by (simp add: np_where_def)
qed

lemma length_reinserted:
  assumes "\<forall>i \<in> set (np_where flags). i \<le> length xs"
      and "length xs = length flags - length (filter (\<lambda>b. b) flags)"
  shows "length (insert_before 0 xs (np_where flags) v) = length flags"
proof -
  have "filter (\<lambda>i. 0 \<le> i \<and> i \<le> 0 + length xs) (np_where flags) = np_where flags"
    using assms(1) by (auto intro: filter_True)
  then have "length (insert_before 0 xs (np_where flags) v)
               = length xs + length (filter (\<lambda>b. b) flags)"
    by (simp add: length_insert_before length_np_where)
  moreover have "length (filter (\<lambda>b. b) flags) \<le> length flags" by simp
  ultimately show ?thesis using assms(2) by simp
qed

lemma np_where_no_frozen:
  assumes "True \<notin> set flags"
  shows "np_where flags = []"
  using assms by (auto simp: np_where_def filter_empty_conv) (metis nth_mem)

text \<open>What dmxparse returns without a covariance matrix.\<close>

lemma dmxparse_no_cov:
  assumes "parameter_covariance_matrix f = None" "bins f \<noteq> []"
  shows "dmxparse f =
     Inr \<lparr>dmxs = map (\<lambda>v. v - np_mean (map val (bins f))) (map val (bins f)),
          dmx_verrs = map (\<lambda>b. Some (uncertainty_value b)) (bins f),
          dmxeps = map (\<lambda>b. (dmxr1 b + dmxr2 b) / 2) (bins f),
          r1s = map dmxr1 (bins f), r2s = map dmxr2 (bins f),
          bin_keys = map (\<lambda>ii. ''DMX_'' @ ii) (map epoch (bins f)),
          mean_dmx = np_mean (map val (bins f)),
          avg_dm_err =
            (if True \<in> set (map frozen (bins f))
             then (if filter (\<lambda>b. \<not> frozen b) (bins f) = [] then Some 0
                   else Some (np_mean (map uncertainty_value
                                 (filter (\<lambda>b. \<not> frozen b) (bins f)))))
             else Some (np_mean (map uncertainty_value (bins f))))\<rparr>"
proof (cases "True \<in> set (map frozen (bins f))")
  case True
  then show ?thesis using assms unfolding dmxparse_def Let_def
    by (simp add: unmasked_fit comp_def)
next
  case False
  then show ?thesis using assms unfolding dmxparse_def Let_def
    by (simp add: comp_def all_some_map_Some)
qed

text \<open>What dmxparse does with a covariance matrix.\<close>

lemma dmxparse_cov:
  assumes cov: "parameter_covariance_matrix f = Some g" and ne: "bins f \<noteq> []"
      and c: "c = g (cov_labels (map epoch (bins f)))"
      and n: "n = length (filter (\<lambda>b. \<not> frozen b) (bins f))"
  shows "dmxparse f =
     (if \<not> (nrows c = n \<and> ncols c = n) then Inl ValueError
      else if \<exists>i \<in> set (np_where (map frozen (bins f))). n < i then Inl IndexError
      else
        Inr \<lparr>dmxs = map (\<lambda>v. v - np_mean (map val (bins f))) (map val (bins f)),
             dmx_verrs = insert_before 0 (map (\<lambda>i. np_sqrt (MCMt n (elem c) i i)) [0..<n])
                           (np_where (map frozen (bins f))) None,
             dmxeps = map (\<lambda>b. (dmxr1 b + dmxr2 b) / 2) (bins f),
             r1s = map dmxr1 (bins f), r2s = map dmxr2 (bins f),
             bin_keys = map (\<lambda>ii. ''DMX_'' @ ii) (map epoch (bins f)),
             mean_dmx = np_mean (map val (bins f)),
             avg_dm_err = fdiv (np_sqrt (np_sum c)) (real n)\<rparr>)"
proof -
  let ?flags = "map frozen (bins f)"
  let ?fit = "map (\<lambda>i. np_sqrt (MCMt n (elem c) i i)) [0..<n]"
  have cnt: "length ?flags - length (filter (\<lambda>fz. fz) ?flags) = n"
    using n count_fit by simp
  show ?thesis
  proof (cases "nrows c = n \<and> ncols c = n")
    case False
    then have "fit_vErrs n c = Inl ValueError"
      by (auto simp: fit_vErrs_def np_dot_def split: sum.splits)
    then have "with_covariance ?flags c = Inl ValueError"
      unfolding with_covariance_def Let_def cnt by simp
    then show ?thesis using False cov ne c unfolding dmxparse_def Let_def by simp
  next
    case True
    then have fit: "fit_vErrs n c = Inr ?fit" by (intro fit_vErrs_MCMt) simp_all
    show ?thesis
    proof (cases "\<exists>i \<in> set (np_where ?flags). n < i")
      case bad: True
      then have fz: "True \<in> set ?flags" using np_where_no_frozen by fastforce
      have "with_covariance ?flags c = Inl IndexError"
        unfolding with_covariance_def Let_def cnt fit using bad fz
        by (simp add: np_insert_def)
      then show ?thesis using True bad cov ne c unfolding dmxparse_def Let_def by simp
    next
      case ok: False
      let ?v = "insert_before 0 ?fit (np_where ?flags) None"
      have w: "with_covariance ?flags c = Inr (Num (fdiv (np_sqrt (np_sum c)) (real n)), Plain ?v)"
      proof (cases "True \<in> set ?flags")
        case True
        then show ?thesis
          unfolding with_covariance_def Let_def cnt fit using ok
          by (simp add: np_insert_def)
      next
        case False
        then have "np_where ?flags = []" by (rule np_where_no_frozen)
        then show ?thesis
          unfolding with_covariance_def Let_def cnt fit using False
          by (simp add: insert_before_no_index)
      qed
      have "length ?v = length ?flags"
        by (rule length_reinserted) (use ok cnt in \<open>auto simp: not_less\<close>)
      then have len: "length ?v = length (bins f)" by simp
      show ?thesis using True ok cov ne c w unfolding dmxparse_def Let_def
        by (simp add: len[unfolded c])
    qed
  qed
qed

subsection \<open>Lemmas about the two segmenters\<close>

lemma band_split_set:
  "set (map mjd (filter (\<lambda>t. freq t < dv) b) @ map mjd (filter (\<lambda>t. dv \<le> freq t) b))
     = mjd ` set b"
  by (auto simp: image_iff) (metis not_le)

lemma dmxrange_init_batch:
  assumes "b \<noteq> []"
  shows "dmxrange_init (map mjd (filter (\<lambda>t. freq t < dv) b))
           (map mjd (filter (\<lambda>t. dv \<le> freq t) b)) = Inr (batch_bin dv b)"
proof -
  have "set (map mjd (filter (\<lambda>t. freq t < dv) b) @ map mjd (filter (\<lambda>t. dv \<le> freq t) b)) \<noteq> {}"
    unfolding band_split_set using assms by simp
  then have ne: "map mjd (filter (\<lambda>t. freq t < dv) b) @ map mjd (filter (\<lambda>t. dv \<le> freq t) b) \<noteq> []"
    by (metis set_empty)
  show ?thesis
    unfolding dmxrange_init_def py_min_def py_max_def band_split_set batch_bin_def
    using ne by simp
qed

lemma dmx_ranges_loop_step:
  assumes b: "b = window toas bw prev" and ne: "b \<noteq> []"
  shows "dmx_ranges_loop toas dv bw prev acc =
           dmx_ranges_loop toas dv bw (Max (mjd ` set b))
             (if (\<exists>t \<in> set b. freq t < dv) \<and> (\<exists>t \<in> set b. dv < freq t)
              then acc @ [batch_bin dv b] else acc)"
proof -
  have ex: "\<exists>t \<in> set toas. prev < mjd t"
    using b ne unfolding window_def by (metis (mono_tags, lifting) filter_False)
  show ?thesis
    apply (subst dmx_ranges_loop.simps)
    using ex ne dmxrange_init_batch[OF ne, of dv]
    unfolding Let_def b[unfolded window_def, symmetric] py_max_def
    by (simp del: set_filter)
qed

lemma dmx_ranges_loop_stop:
  assumes "window toas bw prev = []"
  shows "dmx_ranges_loop toas dv bw prev acc = Inr acc"
  apply (subst dmx_ranges_loop.simps)
  using assms unfolding Let_def window_def by simp

lemma window_advances:
  assumes "window toas bw prev \<noteq> []"
  shows "length (filter (\<lambda>t. Max (mjd ` set (window toas bw prev)) < mjd t) toas)
           < length (filter (\<lambda>t. prev < mjd t) toas)"
  using cursor_advances[OF window_def assms] by (simp add: py_max_def)

lemma dmx_ranges_loop_bins:
  assumes "dmx_ranges_loop toas dv bw prev acc = Inr DMXs"
      and "\<forall>d \<in> set acc. Q d"
      and "\<And>p. window toas bw p \<noteq> [] \<Longrightarrow>
             (\<exists>t \<in> set (window toas bw p). freq t < dv) \<Longrightarrow>
             (\<exists>t \<in> set (window toas bw p). dv < freq t) \<Longrightarrow>
             Q (batch_bin dv (window toas bw p))"
  shows "\<forall>d \<in> set DMXs. Q d"
  using assms(1,2)
proof (induction "length (filter (\<lambda>t. prev < mjd t) toas)" arbitrary: prev acc
        rule: less_induct)
  case less
  show ?case
  proof (cases "window toas bw prev = []")
    case True
    then show ?thesis using less.prems dmx_ranges_loop_stop by simp
  next
    case False
    let ?b = "window toas bw prev"
    let ?acc = "if (\<exists>t \<in> set ?b. freq t < dv) \<and> (\<exists>t \<in> set ?b. dv < freq t)
                then acc @ [batch_bin dv ?b] else acc"
    have run: "dmx_ranges_loop toas dv bw (Max (mjd ` set ?b)) ?acc = Inr DMXs"
      using dmx_ranges_loop_step[OF refl False, of dv acc] less.prems(1) by simp
    have inv: "\<forall>d \<in> set ?acc. Q d"
      using less.prems(2) assms(3)[OF False] by auto
    show ?thesis
      by (rule less.hyps[OF window_advances[OF False] run inv])
  qed
qed

lemma dmx_ranges_loop_total:
  "\<exists>D. dmx_ranges_loop toas dv bw prev acc = Inr D"
proof (induction "length (filter (\<lambda>t. prev < mjd t) toas)" arbitrary: prev acc
        rule: less_induct)
  case less
  show ?case
  proof (cases "window toas bw prev = []")
    case True
    then show ?thesis using dmx_ranges_loop_stop by blast
  next
    case False
    show ?thesis
      unfolding dmx_ranges_loop_step[OF refl False]
      by (rule less.hyps[OF window_advances[OF False]])
  qed
qed

lemma hi_close_of_subset: "set (hi_close_of lo hi md ii) \<subseteq> set hi"
  by (auto simp: hi_close_of_def Let_def)

lemma pair_loop_inv:
  assumes "pair_loop lo hi md idx (DMXs, bad) = Inr (DMXs', bad')"
      and "\<forall>ii \<in> set idx. ii < length lo"
      and "\<forall>d \<in> set DMXs. both_bands lo hi d"
      and "set bad \<subseteq> set lo"
  shows "(\<forall>d \<in> set DMXs'. both_bands lo hi d) \<and> set bad' \<subseteq> set lo"
  using assms
proof (induction idx arbitrary: DMXs bad)
  case Nil
  then show ?case by simp
next
  case (Cons ii rest)
  let ?hc = "hi_close_of lo hi md ii"
  have ii: "lo ! ii \<in> set lo" using Cons.prems(2) by simp
  show ?case
  proof (cases "?hc = []")
    case True
    then have "pair_loop lo hi md rest (DMXs, bad @ [lo ! ii]) = Inr (DMXs', bad')"
      using Cons.prems(1) by (simp add: Let_def)
    then show ?thesis
      using Cons.prems ii by (intro Cons.IH[of DMXs "bad @ [lo ! ii]"]) auto
  next
    case False
    let ?d = "\<lparr>los = [lo ! ii], his = ?hc,
               min_mjd = py_min ([lo ! ii] @ ?hc) - 1 / 1000,
               max_mjd = py_max ([lo ! ii] @ ?hc) + 1 / 1000\<rparr>"
    have "pair_loop lo hi md rest (DMXs @ [?d], bad) = Inr (DMXs', bad')"
      using Cons.prems(1) False by (simp add: dmxrange_init_def Let_def)
    moreover have "both_bands lo hi ?d"
      using False ii hi_close_of_subset[of lo hi md ii] by (simp add: both_bands_def)
    ultimately show ?thesis
      using Cons.prems by (intro Cons.IH[of "DMXs @ [?d]" bad]) auto
  qed
qed

lemma pair_loop_total:
  "\<exists>st. pair_loop lo hi md idx (DMXs, bad) = Inr st"
  by (induction idx arbitrary: DMXs bad) (auto simp: Let_def dmxrange_init_def)

lemma rescue_inv:
  assumes "rescue md bad_lo DMXs = Inr DMXs'"
      and "bad_lo \<in> set lo"
      and "\<forall>d \<in> set DMXs. both_bands lo hi d"
  shows "\<forall>d \<in> set DMXs'. both_bands lo hi d"
proof -
  obtain a ind where s: "scan bad_lo md DMXs = (a, ind)" by (cases "scan bad_lo md DMXs")
  show ?thesis
  proof (cases "a < md \<and> ind < length DMXs")
    case True
    let ?d = "DMXs ! ind"
    let ?d' = "?d\<lparr>los := los ?d @ [bad_lo],
                  min_mjd := py_min ((los ?d @ [bad_lo]) @ his ?d),
                  max_mjd := py_max ((los ?d @ [bad_lo]) @ his ?d)\<rparr>"
    have eq: "DMXs' = DMXs[ind := ?d']"
      using assms(1) s True by (simp add: rescue_def Let_def)
    have "both_bands lo hi ?d" using assms(3) True by simp
    then have "both_bands lo hi ?d'" using assms(2) by (simp add: both_bands_def)
    then show ?thesis
      using assms(3) set_update_subset_insert[of DMXs ind ?d'] unfolding eq by auto
  next
    case False
    then have "DMXs' = DMXs"
      using assms(1) s by (auto simp: rescue_def Let_def split: if_splits)
    then show ?thesis using assms(3) by simp
  qed
qed

lemma rescue_loop_inv:
  assumes "rescue_loop md bads DMXs = Inr DMXs'"
      and "set bads \<subseteq> set lo"
      and "\<forall>d \<in> set DMXs. both_bands lo hi d"
  shows "\<forall>d \<in> set DMXs'. both_bands lo hi d"
  using assms
proof (induction bads arbitrary: DMXs)
  case Nil
  then show ?case by simp
next
  case (Cons b bads)
  from Cons.prems(1) obtain D where D: "rescue md b DMXs = Inr D"
      and rest: "rescue_loop md bads D = Inr DMXs'"
    by (auto split: sum.splits)
  have "\<forall>d \<in> set D. both_bands lo hi d"
    using rescue_inv[OF D _ Cons.prems(3)] Cons.prems(2) by simp
  then show ?case using Cons.IH[OF rest] Cons.prems(2) by simp
qed

lemma set_iter_set: "set (set_iter rank xs) = set xs"
  by (simp add: set_iter_def)

lemma np_unique_set: "set (np_unique xs) = set xs"
  by (simp add: np_unique_def)

lemma scan_fold_index:
  assumes "fold (\<lambda>p st. scan_step bad_lo md st p) (enumerate k xs) (a, i) = (a', i')"
      and "a = 2 * md \<or> i < k"
  shows "a' = 2 * md \<or> i' < k + length xs"
  using assms
proof (induction xs arbitrary: k a i)
  case Nil
  then show ?case by simp
next
  case (Cons x xs)
  obtain a1 i1 where st: "scan_step bad_lo md (a, i) (k, x) = (a1, i1)"
    by (cases "scan_step bad_lo md (a, i) (k, x)")
  have "a1 = 2 * md \<or> i1 < Suc k"
    using st Cons.prems(2) by (auto simp: scan_step_def Let_def split: if_splits)
  moreover have "fold (\<lambda>p st. scan_step bad_lo md st p) (enumerate (Suc k) xs) (a1, i1) = (a', i')"
    using Cons.prems(1) st by simp
  ultimately have "a' = 2 * md \<or> i' < Suc k + length xs"
    by (rule Cons.IH[rotated])
  then show ?case by simp
qed

lemma rescue_total:
  assumes "0 \<le> md"
  shows "\<exists>D. rescue md bad_lo DMXs = Inr D"
proof -
  obtain a ind where s: "scan bad_lo md DMXs = (a, ind)" by (cases "scan bad_lo md DMXs")
  then have "a = 2 * md \<or> ind < 0 + length DMXs"
    unfolding scan_def by (rule scan_fold_index) simp
  then have "a < md \<longrightarrow> ind < length DMXs" using assms by auto
  then show ?thesis using s by (auto simp: rescue_def Let_def)
qed

lemma rescue_loop_total:
  assumes "0 \<le> md"
  shows "\<exists>D. rescue_loop md bads DMXs = Inr D"
proof (induction bads arbitrary: DMXs)
  case Nil
  show ?case by simp
next
  case (Cons b bads)
  obtain D where "rescue md b DMXs = Inr D" using rescue_total[OF assms] by blast
  then show ?case using Cons.IH[of D] by simp
qed

subsection \<open>Mean subtraction\<close>

lemma sum_list_sub_mean:
  assumes "xs \<noteq> []"
  shows "sum_list (map (\<lambda>v. v - np_mean xs) xs) = (0::real)"
proof -
  have "sum_list (map (\<lambda>v. v - c) xs) = sum_list xs - real (length xs) * c" for c :: real
    by (induction xs) (simp_all add: algebra_simps)
  then show ?thesis using assms by (simp add: np_mean_def)
qed

lemma dmxparse_InrD:
  "dmxparse f = Inr out \<Longrightarrow>
     bins f \<noteq> [] \<and> mean_dmx out = np_mean (map val (bins f)) \<and>
     dmxs out = map (\<lambda>v. v - np_mean (map val (bins f))) (map val (bins f)) \<and>
     bin_keys out = map (\<lambda>ii. ''DMX_'' @ ii) (map epoch (bins f))"
  unfolding dmxparse_def Let_def
  by (auto split: if_splits sum.splits prod.splits option.splits)

text \<open>
  C1. dmxparse returns a result for every model with at least one DMX bin, unless the
  covariance branch raises: it returns exactly when there is a bin and either the fitter has no
  covariance matrix, or the matrix of the provider is \<open>n\<close> by \<open>n\<close> (\<open>n\<close> the number of
  non-frozen bins) and no frozen bin stands at a position beyond \<open>n\<close>. Whatever it returns,
  \<open>mean_dmx\<close> is the arithmetic mean of the values of all bins (frozen and fit alike), the
  returned values are the bin values minus that mean, in the order of the bin names, and they
  sum to zero. With the four values 1, 2, 3, 4 and no covariance matrix it returns the mean
  2.5 and the values -1.5, -0.5, 0.5, 1.5.
\<close>

theorem dmxparse_mean_subtraction:
  "((\<exists>r. dmxparse f = Inr r) \<longleftrightarrow>
      bins f \<noteq> [] \<and>
      (case parameter_covariance_matrix f of
         None \<Rightarrow> True
       | Some g \<Rightarrow>
           (let c = g (cov_labels (map epoch (bins f)));
                n = length (filter (\<lambda>b. \<not> frozen b) (bins f))
            in nrows c = n \<and> ncols c = n \<and>
               (\<forall>i \<in> set (np_where (map frozen (bins f))). i \<le> n)))) \<and>
   (dmxparse f = Inr out \<longrightarrow>
      mean_dmx out = sum_list (map val (bins f)) / real (length (bins f)) \<and>
      dmxs out = map (\<lambda>b. val b - mean_dmx out) (bins f) \<and>
      bin_keys out = map (\<lambda>b. ''DMX_'' @ epoch b) (bins f) \<and>
      sum_list (dmxs out) = 0) \<and>
   (parameter_covariance_matrix f = None \<and> map val (bins f) = [1, 2, 3, 4] \<longrightarrow>
      (\<exists>r. dmxparse f = Inr r \<and> mean_dmx r = 5 / 2 \<and>
           dmxs r = [- 3 / 2, - 1 / 2, 1 / 2, 3 / 2]))"
proof (intro conjI impI)
  show "(\<exists>r. dmxparse f = Inr r) \<longleftrightarrow>
      bins f \<noteq> [] \<and>
      (case parameter_covariance_matrix f of
         None \<Rightarrow> True
       | Some g \<Rightarrow>
           (let c = g (cov_labels (map epoch (bins f)));
                n = length (filter (\<lambda>b. \<not> frozen b) (bins f))
            in nrows c = n \<and> ncols c = n \<and>
               (\<forall>i \<in> set (np_where (map frozen (bins f))). i \<le> n)))"
  proof (cases "bins f = []")
    case True
    then show ?thesis by (simp add: dmxparse_def)
  next
    case ne: False
    show ?thesis
    proof (cases "parameter_covariance_matrix f")
      case None
      then show ?thesis using ne dmxparse_no_cov[OF None ne] by simp
    next
      case (Some g)
      show ?thesis
        unfolding dmxparse_cov[OF Some ne refl refl] using ne Some
        by (auto simp: Let_def not_less not_le)
    qed
  qed
next
  assume a: "dmxparse f = Inr out"
  note d = dmxparse_InrD[OF a]
  show "mean_dmx out = sum_list (map val (bins f)) / real (length (bins f))"
    using d by (simp add: np_mean_def)
  show "dmxs out = map (\<lambda>b. val b - mean_dmx out) (bins f)"
    using d by (simp add: comp_def)
  show "bin_keys out = map (\<lambda>b. ''DMX_'' @ epoch b) (bins f)"
    using d by (simp add: comp_def)
  show "sum_list (dmxs out) = 0"
    using d sum_list_sub_mean[of "map val (bins f)"] by simp
next
  assume a: "parameter_covariance_matrix f = None \<and> map val (bins f) = [1, 2, 3, 4]"
  then have ne: "bins f \<noteq> []" by auto
  have "length (map val (bins f)) = 4" using a by simp
  then have len: "length (bins f) = 4" by simp
  show "\<exists>r. dmxparse f = Inr r \<and> mean_dmx r = 5 / 2 \<and>
          dmxs r = [- 3 / 2, - 1 / 2, 1 / 2, 3 / 2]"
    using a ne len unfolding dmxparse_no_cov[OF conjunct1[OF a] ne]
    by (simp add: np_mean_def)
qed

theorem dmxparse_mean_subtraction_witness:
  "parameter_covariance_matrix four_bins = None \<and> map val (bins four_bins) = [1, 2, 3, 4] \<and>
   bins four_bins \<noteq> [] \<and>
   (\<exists>r. dmxparse four_bins = Inr r \<and> mean_dmx r = 5 / 2 \<and>
        dmxs r = [- 3 / 2, - 1 / 2, 1 / 2, 3 / 2] \<and> sum_list (dmxs r) = 0 \<and>
        bin_keys r = [''DMX_0001'', ''DMX_0002'', ''DMX_0003'', ''DMX_0004''])"
proof -
  have h: "parameter_covariance_matrix four_bins = None \<and> map val (bins four_bins) = [1, 2, 3, 4]"
    by (simp add: four_bins_def)
  have ne: "bins four_bins \<noteq> []" by (simp add: four_bins_def)
  note scenario = dmxparse_mean_subtraction[where f = four_bins, THEN conjunct2, THEN conjunct2,
      THEN mp, OF h]
  then obtain r where r: "dmxparse four_bins = Inr r" "mean_dmx r = 5 / 2"
      "dmxs r = [- 3 / 2, - 1 / 2, 1 / 2, 3 / 2]"
    by (elim exE conjE)
  note general = dmxparse_mean_subtraction[where f = four_bins and out = r, THEN conjunct2,
      THEN conjunct1, THEN mp, OF r(1)]
  then have "sum_list (dmxs r) = 0"
    and "bin_keys r = [''DMX_0001'', ''DMX_0002'', ''DMX_0003'', ''DMX_0004'']"
    by (simp_all add: four_bins_def)
  with h ne r show ?thesis by (intro conjI exI[of _ r]) (elim conjE, assumption)+
qed

subsection \<open>Covariance correction\<close>

lemma labels_out_of_order:
  "cov_labels (map epoch (bins listed_out_of_order)) = [''DMX_0001'', ''DMX_0002'', ''DMX_0003'']"
  by code_simp

lemma variances_by_label:
  "map (\<lambda>i. MCMt 3 (elem (by_label [''DMX_0001'', ''DMX_0002'', ''DMX_0003''])) i i) [0, 1, 2]
     = [9, 16, 25]"
  by code_simp

lemma sqrt_9_16_25: "sqrt 9 = 3" "sqrt 16 = 4" "sqrt 25 = 5"
  using real_sqrt_abs[of 3] real_sqrt_abs[of 4] real_sqrt_abs[of 5] by simp_all

text \<open>
  C2. The claim pairs every fit bin with the square root of its own diagonal entry of
  \<open>M C M\<^sup>t\<close>. The code asks for the matrix by the sorted labels and takes the \<open>i\<close>-th
  diagonal entry for the \<open>i\<close>-th bin in the order of the model's parameters. A model lists
  \<open>DMX_0001\<close>, \<open>DMX_0003\<close>, \<open>DMX_0002\<close>, none frozen, with variances 2, 23 and 50 for
  \<open>DMX_0001\<close>, \<open>DMX_0002\<close> and \<open>DMX_0003\<close>. The matrix for the sorted labels has the
  de-meaned variances 9, 16 and 25, so the corrected uncertainty of \<open>DMX_0003\<close> is 5 and that
  of \<open>DMX_0002\<close> is 4; dmxparse returns the names in the order of the model with the
  uncertainties 3, 4, 5, that is 4 for \<open>DMX_0003\<close> and 5 for \<open>DMX_0002\<close>.
\<close>

theorem dmxparse_covariance_misaligned:
  "cov_labels (map epoch (bins listed_out_of_order)) = [''DMX_0001'', ''DMX_0002'', ''DMX_0003''] \<and>
   map label_variance [''DMX_0001'', ''DMX_0002'', ''DMX_0003''] = [2, 23, 50] \<and>
   map (\<lambda>i. MCMt 3 (elem (by_label [''DMX_0001'', ''DMX_0002'', ''DMX_0003''])) i i) [0, 1, 2]
     = [9, 16, 25] \<and>
   (\<exists>r. dmxparse listed_out_of_order = Inr r \<and>
        bin_keys r = [''DMX_0001'', ''DMX_0003'', ''DMX_0002''] \<and>
        dmx_verrs r = [Some 3, Some 4, Some 5])"
proof -
  have cov: "parameter_covariance_matrix listed_out_of_order = Some by_label"
    by (simp add: listed_out_of_order_def)
  have ne: "bins listed_out_of_order \<noteq> []" by (simp add: listed_out_of_order_def)
  have n: "3 = length (filter (\<lambda>b. \<not> frozen b) (bins listed_out_of_order))"
    by (simp add: listed_out_of_order_def bin_at_def)
  have fz: "map frozen (bins listed_out_of_order) = [False, False, False]"
    by (simp add: listed_out_of_order_def bin_at_def)
  have wh: "np_where [False, False, False] = []"
    by (rule np_where_no_frozen) simp
  have upt3: "[0..<3] = [0, 1, 2]"
    by (simp add: upt_rec[of 0] upt_rec[of 1] upt_rec[of 2] upt_rec[of 3] numeral_eq_Suc)
  have fit: "map (\<lambda>i. np_sqrt (MCMt 3 (elem (by_label [''DMX_0001'', ''DMX_0002'', ''DMX_0003''])) i i))
               [0..<3] = [Some 3, Some 4, Some 5]"
    using variances_by_label unfolding upt3 by (simp add: np_sqrt_def sqrt_9_16_25)
  have shape: "nrows (by_label [''DMX_0001'', ''DMX_0002'', ''DMX_0003'']) = 3"
    "ncols (by_label [''DMX_0001'', ''DMX_0002'', ''DMX_0003'']) = 3"
    by (simp_all add: by_label_def)
  have "\<exists>r. dmxparse listed_out_of_order = Inr r \<and>
        bin_keys r = [''DMX_0001'', ''DMX_0003'', ''DMX_0002''] \<and>
        dmx_verrs r = [Some 3, Some 4, Some 5]"
    unfolding dmxparse_cov[OF cov ne refl n] labels_out_of_order fz wh
    by (simp add: shape fit insert_before_no_index listed_out_of_order_def bin_at_def)
  moreover have "map label_variance [''DMX_0001'', ''DMX_0002'', ''DMX_0003''] = [2, 23, 50]"
    by (simp add: label_variance_def)
  ultimately show ?thesis using labels_out_of_order variances_by_label by blast
qed

text \<open>The name \<open>DMX_0003\<close> is returned second, and the uncertainty returned with it is not
  its own.\<close>

theorem dmxparse_covariance_misaligned_witness:
  "\<exists>r. dmxparse listed_out_of_order = Inr r \<and>
       bin_keys r ! 1 = ''DMX_0003'' \<and> dmx_verrs r ! 1 \<noteq> Some 5"
  using dmxparse_covariance_misaligned by auto

subsection \<open>Reinsertion of the placeholders\<close>

lemma fit_diag2: "map (\<lambda>i. np_sqrt (MCMt 2 (elem diag2) i i)) [0..<2] = [Some 1, Some 1]"
proof -
  have "MCMt 2 (elem diag2) i i = 2 * (1 - 1 / real 2)" if "i < 2" for i
    using that by (intro MCMt_diagonal) (simp_all add: diag2_def)
  then show ?thesis
    by (simp add: np_sqrt_def numeral_2_eq_2)
qed

lemma np_where_first: "np_where [True, True, False, False] = [0, 1]"
  by (simp add: np_where_def upt_rec[of 0] upt_rec[of 1] upt_rec[of 2] upt_rec[of 3] upt_rec[of 4]
      numeral_eq_Suc)

lemma np_where_last: "np_where [False, False, True, True] = [2, 3]"
  by (simp add: np_where_def upt_rec[of 0] upt_rec[of 1] upt_rec[of 2] upt_rec[of 3] upt_rec[of 4]
      numeral_eq_Suc)

text \<open>
  C3. The claim is that the corrected uncertainties realign with the full bin list for every
  pattern of frozen bins. The code hands the positions of the frozen bins in the full list to
  \<open>np.insert\<close>, which reads them as positions in the shorter array of fit bins. With bins
  1 and 2 frozen and bins 3 and 4 fit, the placeholders land at positions 1 and 3: the frozen
  bin 2 carries the uncertainty of bin 3, and the fit bin 3 carries the placeholder. With
  bins 3 and 4 frozen instead, \<open>np.insert\<close> raises IndexError.
\<close>

theorem dmxparse_reinsertion_misaligned:
  "(\<exists>r. dmxparse two_frozen_first = Inr r \<and>
        dmx_verrs r = [None, Some 1, None, Some 1]) \<and>
   map frozen (bins two_frozen_first) = [True, True, False, False] \<and>
   dmxparse two_frozen_last = Inl IndexError"
proof -
  have ne1: "bins two_frozen_first \<noteq> []" by (simp add: two_frozen_first_def)
  have cov1: "parameter_covariance_matrix two_frozen_first = Some (\<lambda>labels. diag2)"
    by (simp add: two_frozen_first_def)
  have fz1: "map frozen (bins two_frozen_first) = [True, True, False, False]"
    by (simp add: two_frozen_first_def bin_at_def)
  have n1: "2 = length (filter (\<lambda>b. \<not> frozen b) (bins two_frozen_first))"
    by (simp add: two_frozen_first_def bin_at_def)
  have r1: "\<exists>r. dmxparse two_frozen_first = Inr r \<and>
        dmx_verrs r = [None, Some 1, None, Some 1]"
    unfolding dmxparse_cov[OF cov1 ne1 refl n1] fz1 np_where_first fit_diag2
    by (simp add: diag2_def)
  have ne2: "bins two_frozen_last \<noteq> []" by (simp add: two_frozen_last_def)
  have cov2: "parameter_covariance_matrix two_frozen_last = Some (\<lambda>labels. diag2)"
    by (simp add: two_frozen_last_def)
  have fz2: "map frozen (bins two_frozen_last) = [False, False, True, True]"
    by (simp add: two_frozen_last_def bin_at_def)
  have n2: "2 = length (filter (\<lambda>b. \<not> frozen b) (bins two_frozen_last))"
    by (simp add: two_frozen_last_def bin_at_def)
  have r2: "dmxparse two_frozen_last = Inl IndexError"
    unfolding dmxparse_cov[OF cov2 ne2 refl n2] fz2 np_where_last
    by (simp add: diag2_def)
  show ?thesis using r1 fz1 r2 by blast
qed

text \<open>The aligned array that the claim describes for the first input is not what dmxparse
  returns.\<close>

theorem dmxparse_reinsertion_misaligned_witness:
  "\<exists>r. dmxparse two_frozen_first = Inr r \<and>
       dmx_verrs r \<noteq> [None, None, Some 1, Some 1]"
  using dmxparse_reinsertion_misaligned by auto

subsection \<open>Extent and mask of the windowed segmenter\<close>

text \<open>C4, as claimed: the extent of a bin of \<open>dmx_ranges\<close> is that of its batch with no pad.
  For a low-band TOA at day 0 and a high-band TOA at day 0.05 the bin reaches from -0.001 to
  0.051.\<close>

theorem dmx_ranges_pad_counterexample:
  "dmx_ranges low_high 1000 15 =
     Inr ([True, True],
          [\<lparr>los = [0], his = [1 / 20], min_mjd = - (1 / 1000), max_mjd = 51 / 1000\<rparr>]) \<and>
   - (1 / 1000) \<noteq> py_min [0, 1 / 20 :: real] \<and> 51 / 1000 \<noteq> py_max [0, 1 / 20 :: real]"
  by code_simp

text \<open>
  C4, amended. \<open>dmx_ranges\<close> returns for every stream with a TOA. Every bin it returns is made
  of one batch: its low and high days are the days of the batch below and at or above the
  divide, and its extent is the extent of the batch widened by 0.001 day: \<open>min\<close> is the
  earliest day minus 0.001 and \<open>max\<close> the latest day plus 0.001. The mask is True exactly
  at the TOAs whose day lies in the closed interval from \<open>min\<close> to \<open>max\<close> of some bin.
\<close>

theorem dmx_ranges_extent_and_mask:
  "(toas \<noteq> [] \<longrightarrow> (\<exists>m D. dmx_ranges toas divide_freq binwidth = Inr (m, D))) \<and>
   (dmx_ranges toas divide_freq binwidth = Inr (msk, DMXs) \<longrightarrow>
      (\<forall>d \<in> set DMXs. \<exists>prev.
          (let b = window toas binwidth prev
           in b \<noteq> [] \<and>
              los d = map mjd (filter (\<lambda>t. freq t < divide_freq) b) \<and>
              his d = map mjd (filter (\<lambda>t. divide_freq \<le> freq t) b) \<and>
              min_mjd d = Min (mjd ` set b) - 1 / 1000 \<and>
              max_mjd d = Max (mjd ` set b) + 1 / 1000)) \<and>
      length msk = length toas \<and>
      (\<forall>i < length toas.
          msk ! i =
            (\<exists>d \<in> set DMXs. min_mjd d \<le> mjd (toas ! i) \<and> mjd (toas ! i) \<le> max_mjd d)))"
proof (intro conjI impI)
  assume "toas \<noteq> []"
  then obtain t0 rest where toas: "toas = t0 # rest" by (cases toas) auto
  obtain D where "dmx_ranges_loop toas divide_freq binwidth (mjd t0 - 1 / 1000) [] = Inr D"
    using dmx_ranges_loop_total by blast
  then show "\<exists>m D. dmx_ranges toas divide_freq binwidth = Inr (m, D)"
    unfolding toas by (simp add: dmx_ranges_def)
next
  assume ret: "dmx_ranges toas divide_freq binwidth = Inr (msk, DMXs)"
  then obtain t0 rest where toas: "toas = t0 # rest"
    by (cases toas) (auto simp: dmx_ranges_def)
  from ret toas
  have run: "dmx_ranges_loop toas divide_freq binwidth (mjd t0 - 1 / 1000) [] = Inr DMXs"
    and msk: "msk = map (\<lambda>t. \<exists>DMX \<in> set DMXs. min_mjd DMX \<le> mjd t \<and> mjd t \<le> max_mjd DMX) toas"
    by (auto simp: dmx_ranges_def split: sum.splits)
  define Q where "Q d \<longleftrightarrow> (\<exists>prev.
            (let b = window toas binwidth prev
             in b \<noteq> [] \<and>
                los d = map mjd (filter (\<lambda>t. freq t < divide_freq) b) \<and>
                his d = map mjd (filter (\<lambda>t. divide_freq \<le> freq t) b) \<and>
                min_mjd d = Min (mjd ` set b) - 1 / 1000 \<and>
                max_mjd d = Max (mjd ` set b) + 1 / 1000))" for d :: dmxrange
  have "\<forall>d \<in> set DMXs. Q d"
  proof (rule dmx_ranges_loop_bins[OF run])
    show "\<forall>d \<in> set []. Q d" by simp
  next
    fix p assume "window toas binwidth p \<noteq> []"
    then show "Q (batch_bin divide_freq (window toas binwidth p))"
      unfolding Q_def Let_def by (intro exI[of _ p]) (simp add: batch_bin_def)
  qed
  then show "\<forall>d \<in> set DMXs. \<exists>prev.
          (let b = window toas binwidth prev
           in b \<noteq> [] \<and>
              los d = map mjd (filter (\<lambda>t. freq t < divide_freq) b) \<and>
              his d = map mjd (filter (\<lambda>t. divide_freq \<le> freq t) b) \<and>
              min_mjd d = Min (mjd ` set b) - 1 / 1000 \<and>
              max_mjd d = Max (mjd ` set b) + 1 / 1000)"
    unfolding Q_def by simp
  show "length msk = length toas" using msk by simp
  show "\<forall>i < length toas.
          msk ! i =
            (\<exists>d \<in> set DMXs. min_mjd d \<le> mjd (toas ! i) \<and> mjd (toas ! i) \<le> max_mjd d)"
    using msk by simp
qed

theorem dmx_ranges_extent_and_mask_witness:
  "low_high \<noteq> [] \<and>
   (\<exists>m d. dmx_ranges low_high 1000 15 = Inr (m, [d]) \<and>
      length m = length low_high \<and>
      (\<exists>prev. (let b = window low_high 15 prev
                in b \<noteq> [] \<and> min_mjd d = Min (mjd ` set b) - 1 / 1000 \<and>
                   max_mjd d = Max (mjd ` set b) + 1 / 1000)))"
proof -
  have ne: "low_high \<noteq> []" by (simp add: low_high_def)
  have "dmx_ranges low_high 1000 15 =
          Inr ([True, True],
            [\<lparr>los = [0], his = [1 / 20], min_mjd = - (1 / 1000), max_mjd = 51 / 1000\<rparr>])"
    by code_simp
  then obtain m d where r: "dmx_ranges low_high 1000 15 = Inr (m, [d])"
    by blast
  note th = dmx_ranges_extent_and_mask[of low_high 1000 15 m "[d]", THEN conjunct2, THEN mp, OF r]
  then have "length m = length low_high"
    and "\<exists>prev. (let b = window low_high 15 prev
                in b \<noteq> [] \<and> min_mjd d = Min (mjd ` set b) - 1 / 1000 \<and>
                   max_mjd d = Max (mjd ` set b) + 1 / 1000)"
    by (auto simp: Let_def)
  with ne r show ?thesis by blast
qed

subsection \<open>Acceptance of a batch by the windowed segmenter\<close>

text \<open>C5, as claimed: a batch with a TOA below the divide and a TOA at or above it yields a
  bin. A batch with one TOA at 500 MHz and one at exactly the divide, 1000 MHz, yields
  none.\<close>

theorem dmx_ranges_at_divide_counterexample:
  "dmx_ranges low_at_divide 1000 15 = Inr ([False, False], []) \<and>
   window low_at_divide 15 (- (1 / 1000)) = low_at_divide \<and>
   freq (low_at_divide ! 0) < 1000 \<and> 1000 \<le> freq (low_at_divide ! 1)"
  by code_simp

text \<open>
  C5, amended. One iteration of the loop of \<open>dmx_ranges\<close> from the cursor \<open>prev\<close>: the batch
  is \<open>window toas binwidth prev\<close>, all TOAs in \<open>(prev, start + binwidth]\<close>. A batch that is not
  empty yields a bin exactly when it has a TOA with frequency below the divide and a TOA
  with frequency strictly above it; otherwise nothing is added; either way the loop goes on
  from the latest day of the batch, which is later than \<open>prev\<close>. The loop ends when the batch
  is empty, and the batch is not empty when a TOA is later than \<open>prev\<close> and \<open>binwidth\<close> is not
  negative.
\<close>

theorem dmx_ranges_batch_acceptance:
  "(window toas binwidth prev \<noteq> [] \<longrightarrow>
      prev < Max (mjd ` set (window toas binwidth prev)) \<and>
      dmx_ranges_loop toas divide_freq binwidth prev DMXs =
        dmx_ranges_loop toas divide_freq binwidth (Max (mjd ` set (window toas binwidth prev)))
          (if (\<exists>t \<in> set (window toas binwidth prev). freq t < divide_freq) \<and>
              (\<exists>t \<in> set (window toas binwidth prev). divide_freq < freq t)
           then DMXs @ [batch_bin divide_freq (window toas binwidth prev)]
           else DMXs)) \<and>
   (window toas binwidth prev = [] \<longrightarrow>
      dmx_ranges_loop toas divide_freq binwidth prev DMXs = Inr DMXs) \<and>
   ((\<exists>t \<in> set toas. prev < mjd t) \<and> 0 \<le> binwidth \<longrightarrow> window toas binwidth prev \<noteq> [])"
proof (intro conjI impI)
  assume ne: "window toas binwidth prev \<noteq> []"
  have "Max (mjd ` set (window toas binwidth prev)) \<in> mjd ` set (window toas binwidth prev)"
    using ne by (intro Max_in) simp_all
  then show "prev < Max (mjd ` set (window toas binwidth prev))"
    by (auto simp: window_def)
  show "dmx_ranges_loop toas divide_freq binwidth prev DMXs =
        dmx_ranges_loop toas divide_freq binwidth (Max (mjd ` set (window toas binwidth prev)))
          (if (\<exists>t \<in> set (window toas binwidth prev). freq t < divide_freq) \<and>
              (\<exists>t \<in> set (window toas binwidth prev). divide_freq < freq t)
           then DMXs @ [batch_bin divide_freq (window toas binwidth prev)]
           else DMXs)"
    by (rule dmx_ranges_loop_step[OF refl ne])
next
  assume "window toas binwidth prev = []"
  then show "dmx_ranges_loop toas divide_freq binwidth prev DMXs = Inr DMXs"
    by (rule dmx_ranges_loop_stop)
next
  assume a: "(\<exists>t \<in> set toas. prev < mjd t) \<and> 0 \<le> binwidth"
  let ?after = "filter (\<lambda>t. prev < mjd t) toas"
  have "?after \<noteq> []" using a by (simp add: filter_empty_conv)
  then have "hd ?after \<in> set ?after" by (rule hd_in_set)
  then have "hd ?after \<in> set toas" "prev < mjd (hd ?after)" by auto
  then have "hd ?after \<in> set (window toas binwidth prev)"
    using a by (simp add: window_def)
  then show "window toas binwidth prev \<noteq> []" by auto
qed

theorem dmx_ranges_batch_acceptance_witness:
  "window low_high 15 (- (1 / 1000)) \<noteq> [] \<and>
   (\<exists>t \<in> set low_high. - (1 / 1000) < mjd t) \<and> (0::real) \<le> 15 \<and>
   window low_high 15 (1 / 20) = [] \<and>
   dmx_ranges_loop low_high 1000 15 (- (1 / 1000)) [] = Inr [batch_bin 1000 low_high] \<and>
   dmx_ranges_loop low_at_divide 1000 15 (- (1 / 1000)) [] = Inr []"
proof -
  have w1: "window low_high 15 (- (1 / 1000)) = low_high" by code_simp
  have w2: "window low_high 15 (1 / 20) = []" by code_simp
  have ne: "window low_high 15 (- (1 / 1000)) \<noteq> []" unfolding w1 by (simp add: low_high_def)
  have later: "(\<exists>t \<in> set low_high. - (1 / 1000) < mjd t) \<and> (0::real) \<le> 15"
    by (simp add: low_high_def obs_def)
  have m1: "Max (mjd ` set low_high) = 1 / 20" by (simp add: low_high_def obs_def)
  have bands: "(\<exists>t \<in> set low_high. freq t < 1000) \<and> (\<exists>t \<in> set low_high. 1000 < freq t)"
    by (simp add: low_high_def obs_def)
  have "dmx_ranges_loop low_high 1000 15 (- (1 / 1000)) [] =
          dmx_ranges_loop low_high 1000 15 (1 / 20) [batch_bin 1000 low_high]"
    using dmx_ranges_batch_acceptance[of low_high 15 "- (1 / 1000)" 1000 "[]",
        THEN conjunct1, THEN mp, OF ne] bands
    unfolding w1 m1 by simp
  also have "\<dots> = Inr [batch_bin 1000 low_high]"
    using dmx_ranges_batch_acceptance[of low_high 15 "1 / 20" 1000 "[batch_bin 1000 low_high]",
        THEN conjunct2, THEN conjunct1, THEN mp, OF w2] .
  finally have run: "dmx_ranges_loop low_high 1000 15 (- (1 / 1000)) [] =
      Inr [batch_bin 1000 low_high]" .
  have v1: "window low_at_divide 15 (- (1 / 1000)) = low_at_divide" by code_simp
  have v2: "window low_at_divide 15 (1 / 20) = []" by code_simp
  have vne: "window low_at_divide 15 (- (1 / 1000)) \<noteq> []"
    unfolding v1 by (simp add: low_at_divide_def)
  have vm: "Max (mjd ` set low_at_divide) = 1 / 20" by (simp add: low_at_divide_def obs_def)
  have vb: "\<not> (\<exists>t \<in> set low_at_divide. 1000 < freq t)"
    by (simp add: low_at_divide_def obs_def)
  have "dmx_ranges_loop low_at_divide 1000 15 (- (1 / 1000)) [] =
          dmx_ranges_loop low_at_divide 1000 15 (1 / 20) []"
    using dmx_ranges_batch_acceptance[of low_at_divide 15 "- (1 / 1000)" 1000 "[]",
        THEN conjunct1, THEN mp, OF vne] vb
    unfolding v1 vm by simp
  also have "\<dots> = Inr []"
    using dmx_ranges_batch_acceptance[of low_at_divide 15 "1 / 20" 1000 "[]",
        THEN conjunct2, THEN conjunct1, THEN mp, OF v2] .
  finally have run2: "dmx_ranges_loop low_at_divide 1000 15 (- (1 / 1000)) [] = Inr []" .
  from ne later w2 run run2 show ?thesis by blast
qed

subsection \<open>The pad of the legacy segmenter\<close>

text \<open>
  C6. The constructor sets the extent of a bin to that of its days widened by 0.001 day, but
  the rescue pass sets the extent of the bin that takes an orphan to the bare extent of its
  days. Low-band TOAs at days 0 and 1 and a high-band TOA at day 0.2: day 0 keeps the
  high-band day, day 1 is an orphan and is rescued by the bin, whose extent becomes 0 to 1
  and not -0.001 to 1.001. (The rank, and so the order of the rescue loop, is any.) With
  \<open>offset = 0\<close> the open interval of the mask then leaves out the two low-band TOAs of the bin
  itself, which the pad of the constructor is there to keep in.
\<close>

theorem dmx_ranges_old_rescue_drops_pad:
  "dmx_ranges_old rank orphan_low 1000 (1 / 100) 15 =
     Inr ([True, True, True], [\<lparr>los = [0, 1], his = [1 / 5], min_mjd = 0, max_mjd = 1\<rparr>]) \<and>
   dmx_ranges_old rank orphan_low 1000 0 15 =
     Inr ([False, False, True], [\<lparr>los = [0, 1], his = [1 / 5], min_mjd = 0, max_mjd = 1\<rparr>])"
proof -
  let ?d0 = "\<lparr>los = [0], his = [1 / 5], min_mjd = - (1 / 1000), max_mjd = 201 / 1000 :: real\<rparr>"
  let ?d1 = "\<lparr>los = [0, 1], his = [1 / 5], min_mjd = 0, max_mjd = 1 :: real\<rparr>"
  have lo: "np_unique (map np_round1 (map mjd (filter (\<lambda>t. freq t < 1000) orphan_low))) = [0, 1]"
    by code_simp
  have hi: "np_unique (map np_round1 (map mjd (filter (\<lambda>t. 1000 < freq t) orphan_low))) = [1 / 5]"
    by code_simp
  have pair: "pair_loop [0, 1] [1 / 5] 15 [0..<length [0, 1 :: real]] ([], []) = Inr ([?d0], [1])"
    by code_simp
  have iter: "set_iter rank [1] = [1]"
    by (simp add: set_iter_def)
  have resc: "rescue_loop 15 [1] [?d0] = Inr [?d1]"
    by code_simp
  have msk: "map (\<lambda>t. \<exists>DMX \<in> set [?d1].
                min_mjd DMX - 1 / 100 < mjd t \<and> mjd t < max_mjd DMX + 1 / 100) orphan_low
             = [True, True, True]"
    by code_simp
  have msk0: "map (\<lambda>t. \<exists>DMX \<in> set [?d1].
                min_mjd DMX - 0 < mjd t \<and> mjd t < max_mjd DMX + 0) orphan_low
             = [False, False, True]"
    by code_simp
  show ?thesis
    unfolding dmx_ranges_old_def Let_def lo hi pair
    by (simp only: sum.case prod.case iter resc msk msk0 simp_thms)
qed

theorem dmx_ranges_old_rescue_drops_pad_witness:
  "\<exists>m d. dmx_ranges_old (\<lambda>x. 0) orphan_low 1000 (1 / 100) 15 = Inr (m, [d]) \<and>
     min_mjd d \<noteq> py_min (los d @ his d) - 1 / 1000 \<and>
     max_mjd d \<noteq> py_max (los d @ his d) + 1 / 1000"
proof -
  have "py_min ([0, 1] @ [1 / 5 :: real]) = 0" "py_max ([0, 1] @ [1 / 5 :: real]) = 1"
    by (simp_all add: py_min_def py_max_def)
  then show ?thesis
    using dmx_ranges_old_rescue_drops_pad[of "\<lambda>x. 0"] by simp
qed

subsection \<open>Both bands in every bin of the legacy segmenter\<close>

text \<open>
  C7. \<open>dmx_ranges_old\<close> returns whenever \<open>max_diff\<close> is not negative, and every bin it
  returns has at least one low-band day and at least one high-band day: its low days are
  rounded days of TOAs below the divide and its high days are rounded days of TOAs above it.
  This holds for every order in which the rescue loop visits the orphans.
\<close>

theorem dmx_ranges_old_both_bands:
  "(0 \<le> max_diff \<longrightarrow>
      (\<exists>m D. dmx_ranges_old rank toas divide_freq offset max_diff = Inr (m, D))) \<and>
   (dmx_ranges_old rank toas divide_freq offset max_diff = Inr (msk, DMXs) \<longrightarrow>
      (\<forall>d \<in> set DMXs.
         los d \<noteq> [] \<and> his d \<noteq> [] \<and>
         set (los d) \<subseteq> (\<lambda>t. np_round1 (mjd t)) ` {t \<in> set toas. freq t < divide_freq} \<and>
         set (his d) \<subseteq> (\<lambda>t. np_round1 (mjd t)) ` {t \<in> set toas. divide_freq < freq t}))"
proof (intro conjI impI)
  let ?lo = "np_unique (map np_round1 (map mjd (filter (\<lambda>t. freq t < divide_freq) toas)))"
  let ?hi = "np_unique (map np_round1 (map mjd (filter (\<lambda>t. divide_freq < freq t) toas)))"
  obtain D0 bad where pair: "pair_loop ?lo ?hi max_diff [0..<length ?lo] ([], []) = Inr (D0, bad)"
    using pair_loop_total[of ?lo ?hi max_diff "[0..<length ?lo]" "[]" "[]"] by auto
  have unfold: "dmx_ranges_old rank toas divide_freq offset max_diff =
      (case rescue_loop max_diff (set_iter rank bad) D0 of
         Inl e \<Rightarrow> Inl e
       | Inr D \<Rightarrow>
           Inr (map (\<lambda>t. \<exists>DMX \<in> set D.
                       min_mjd DMX - offset < mjd t \<and> mjd t < max_mjd DMX + offset) toas, D))"
    unfolding dmx_ranges_old_def Let_def pair by simp
  {
    assume "0 \<le> max_diff"
    then obtain D where "rescue_loop max_diff (set_iter rank bad) D0 = Inr D"
      using rescue_loop_total by blast
    then show "\<exists>m D. dmx_ranges_old rank toas divide_freq offset max_diff = Inr (m, D)"
      unfolding unfold by simp
  }
  {
    assume "dmx_ranges_old rank toas divide_freq offset max_diff = Inr (msk, DMXs)"
    then have resc: "rescue_loop max_diff (set_iter rank bad) D0 = Inr DMXs"
      unfolding unfold by (auto split: sum.splits)
    have inv0: "(\<forall>d \<in> set D0. both_bands ?lo ?hi d) \<and> set bad \<subseteq> set ?lo"
      by (rule pair_loop_inv[OF pair]) simp_all
    then have "\<forall>d \<in> set DMXs. both_bands ?lo ?hi d"
      using rescue_loop_inv[OF resc, of ?lo ?hi] by (simp add: set_iter_set)
    then show "\<forall>d \<in> set DMXs.
         los d \<noteq> [] \<and> his d \<noteq> [] \<and>
         set (los d) \<subseteq> (\<lambda>t. np_round1 (mjd t)) ` {t \<in> set toas. freq t < divide_freq} \<and>
         set (his d) \<subseteq> (\<lambda>t. np_round1 (mjd t)) ` {t \<in> set toas. divide_freq < freq t}"
      unfolding both_bands_def np_unique_set by (auto simp: image_iff)
  }
qed

theorem dmx_ranges_old_both_bands_witness:
  "(0::real) \<le> 15 \<and>
   (\<exists>m d. dmx_ranges_old (\<lambda>x. 0) orphan_low 1000 (1 / 100) 15 = Inr (m, [d]) \<and>
      los d \<noteq> [] \<and> his d \<noteq> [] \<and>
      set (los d) \<subseteq> (\<lambda>t. np_round1 (mjd t)) ` {t \<in> set orphan_low. freq t < 1000} \<and>
      set (his d) \<subseteq> (\<lambda>t. np_round1 (mjd t)) ` {t \<in> set orphan_low. 1000 < freq t})"
proof -
  have "dmx_ranges_old (\<lambda>x. 0) orphan_low 1000 (1 / 100) 15 =
          Inr ([True, True, True],
               [\<lparr>los = [0, 1], his = [1 / 5], min_mjd = 0, max_mjd = 1\<rparr>])"
    by code_simp
  then obtain m d where r: "dmx_ranges_old (\<lambda>x. 0) orphan_low 1000 (1 / 100) 15 = Inr (m, [d])"
    by blast
  note th = dmx_ranges_old_both_bands[of 15 "\<lambda>x. 0" orphan_low 1000 "1 / 100" m "[d]",
      THEN conjunct2, THEN mp, OF r]
  then have "los d \<noteq> [] \<and> his d \<noteq> [] \<and>
      set (los d) \<subseteq> (\<lambda>t. np_round1 (mjd t)) ` {t \<in> set orphan_low. freq t < 1000} \<and>
      set (his d) \<subseteq> (\<lambda>t. np_round1 (mjd t)) ` {t \<in> set orphan_low. 1000 < freq t}"
    by simp
  with r show ?thesis by auto
qed

subsection \<open>The empty stream\<close>

text \<open>C8, as claimed: on a stream with no TOA both segmenters return no bin and an empty
  mask. \<open>dmx_ranges\<close> does not.\<close>

theorem dmx_ranges_empty_counterexample:
  "dmx_ranges [] 1000 15 \<noteq> Inr ([], [])"
  by (simp add: dmx_ranges_def)

text \<open>
  C8, amended. On a stream with no TOA \<open>dmx_ranges_old\<close> returns no bin and an empty mask;
  \<open>dmx_ranges\<close> reads the day of the first TOA before its loop and raises IndexError.
\<close>

theorem empty_stream:
  "dmx_ranges_old rank [] divide_freq offset max_diff = Inr ([], []) \<and>
   dmx_ranges [] divide_freq binwidth = Inl IndexError"
  by (simp add: dmx_ranges_old_def dmx_ranges_def np_unique_def set_iter_def)

subsection \<open>Fallback without a covariance matrix\<close>

lemma all_fit:
  assumes "True \<notin> set (map frozen bs)"
  shows "filter (\<lambda>b. \<not> frozen b) bs = bs"
  using assms by (induction bs) auto

text \<open>
  C9, as claimed: without a covariance matrix the corrected uncertainties are the raw
  uncertainties and \<open>avg_dm_err\<close> is their arithmetic mean. With uncertainties 0.1, 0.5, 0.3
  and the second bin frozen, dmxparse returns all three uncertainties, whose mean is 0.3, and
  \<open>avg_dm_err = 0.2\<close>, the mean of the two fit bins.
\<close>

theorem dmxparse_fallback_counterexample:
  "parameter_covariance_matrix one_frozen = None \<and>
   (\<exists>out. dmxparse one_frozen = Inr out \<and>
      dmx_verrs out = [Some (1 / 10), Some (1 / 2), Some (3 / 10)] \<and>
      avg_dm_err out = Some (1 / 5) \<and>
      np_mean [1 / 10, 1 / 2, 3 / 10] = 3 / 10)"
proof -
  have cov: "parameter_covariance_matrix one_frozen = None" by (simp add: one_frozen_def)
  have ne: "bins one_frozen \<noteq> []" by (simp add: one_frozen_def)
  show ?thesis
    unfolding dmxparse_no_cov[OF cov ne]
    by (simp add: one_frozen_def bin_at_def np_mean_def)
qed

text \<open>
  C9, amended. When the fitter has no covariance matrix (and the model has a DMX bin),
  dmxparse returns a result, not an error. Its corrected uncertainties are the raw
  uncertainties of all bins, frozen ones included (the mask is lost with the unit). Its
  \<open>avg_dm_err\<close> is the arithmetic mean of the raw uncertainties of the bins that are not
  frozen: the mean of all of them when no bin is frozen (and 0.0 when all are).
\<close>

theorem dmxparse_fallback:
  "parameter_covariance_matrix f = None \<and> bins f \<noteq> [] \<longrightarrow>
     (\<exists>out. dmxparse f = Inr out \<and>
        dmx_verrs out = map (\<lambda>b. Some (uncertainty_value b)) (bins f) \<and>
        avg_dm_err out =
          (let fit = map uncertainty_value (filter (\<lambda>b. \<not> frozen b) (bins f))
           in if fit = [] then Some 0 else Some (sum_list fit / real (length fit))) \<and>
        (True \<notin> set (map frozen (bins f)) \<longrightarrow>
           avg_dm_err out =
             Some (sum_list (map uncertainty_value (bins f)) / real (length (bins f)))))"
proof (intro impI)
  assume a: "parameter_covariance_matrix f = None \<and> bins f \<noteq> []"
  then have cov: "parameter_covariance_matrix f = None" and ne: "bins f \<noteq> []" by simp_all
  show "\<exists>out. dmxparse f = Inr out \<and>
        dmx_verrs out = map (\<lambda>b. Some (uncertainty_value b)) (bins f) \<and>
        avg_dm_err out =
          (let fit = map uncertainty_value (filter (\<lambda>b. \<not> frozen b) (bins f))
           in if fit = [] then Some 0 else Some (sum_list fit / real (length fit))) \<and>
        (True \<notin> set (map frozen (bins f)) \<longrightarrow>
           avg_dm_err out =
             Some (sum_list (map uncertainty_value (bins f)) / real (length (bins f))))"
  proof (cases "True \<in> set (map frozen (bins f))")
    case True
    then show ?thesis
      unfolding dmxparse_no_cov[OF cov ne] by (simp add: Let_def np_mean_def)
  next
    case False
    then show ?thesis
      unfolding dmxparse_no_cov[OF cov ne] using ne all_fit[OF False]
      by (simp add: Let_def np_mean_def)
  qed
qed

theorem dmxparse_fallback_witness:
  "parameter_covariance_matrix one_frozen = None \<and> bins one_frozen \<noteq> [] \<and>
   (\<exists>out. dmxparse one_frozen = Inr out \<and>
      dmx_verrs out = [Some (1 / 10), Some (1 / 2), Some (3 / 10)] \<and>
      avg_dm_err out = Some (1 / 5)) \<and>
   parameter_covariance_matrix four_bins = None \<and> bins four_bins \<noteq> [] \<and>
   True \<notin> set (map frozen (bins four_bins)) \<and>
   (\<exists>out. dmxparse four_bins = Inr out \<and> avg_dm_err out = Some (1 / 10))"
proof -
  have h: "parameter_covariance_matrix one_frozen = None \<and> bins one_frozen \<noteq> []"
    by (simp add: one_frozen_def)
  from dmxparse_fallback[of one_frozen, THEN mp, OF h]
  obtain out where o: "dmxparse one_frozen = Inr out"
    "dmx_verrs out = [Some (1 / 10), Some (1 / 2), Some (3 / 10)]"
    "avg_dm_err out = Some (1 / 5)"
    by (auto simp: one_frozen_def bin_at_def Let_def)
  have h4: "parameter_covariance_matrix four_bins = None \<and> bins four_bins \<noteq> []"
    by (simp add: four_bins_def)
  have nf: "True \<notin> set (map frozen (bins four_bins))"
    by (simp add: four_bins_def)
  from dmxparse_fallback[of four_bins, THEN mp, OF h4] nf
  obtain out4 where o4: "dmxparse four_bins = Inr out4" "avg_dm_err out4 = Some (1 / 10)"
    by (auto simp: four_bins_def Let_def)
  from h o h4 nf o4 show ?thesis by blast
qed

subsection \<open>What dmxparse asks of the covariance provider\<close>

text \<open>
  C10. With a covariance matrix present, dmxparse asks the provider for the labels of all
  DMX bins, frozen ones included, sorted ascending (its result depends on the provider only
  through the matrix returned for that list), and then multiplies with an \<open>n\<close> by \<open>n\<close>
  projector, \<open>n\<close> the number of non-frozen bins: the products raise ValueError unless the
  returned matrix is \<open>n\<close> by \<open>n\<close>, that is, unless the provider has left the frozen labels out.
\<close>

theorem dmxparse_covariance_request:
  assumes cov: "parameter_covariance_matrix f = Some g"
      and ne: "bins f \<noteq> []"
      and labels: "labels = cov_labels (map epoch (bins f))"
      and n: "n = length (filter (\<lambda>b. \<not> frozen b) (bins f))"
  shows "sorted labels \<and> length labels = length (bins f) \<and>
         set labels = (\<lambda>b. ''DMX_'' @ epoch b) ` set (bins f) \<and>
         (\<forall>g'. g' labels = g labels \<longrightarrow>
               dmxparse (f\<lparr>parameter_covariance_matrix := Some g'\<rparr>) = dmxparse f) \<and>
         (dmxparse f = Inl ValueError \<longleftrightarrow> \<not> (nrows (g labels) = n \<and> ncols (g labels) = n))"
proof (intro conjI allI impI)
  show "sorted labels" by (simp add: labels cov_labels_def)
  show "length labels = length (bins f)" by (simp add: labels cov_labels_def)
  show "set labels = (\<lambda>b. ''DMX_'' @ epoch b) ` set (bins f)"
    by (auto simp: labels cov_labels_def)
next
  fix g' assume same: "g' labels = g labels"
  let ?f' = "f\<lparr>parameter_covariance_matrix := Some g'\<rparr>"
  have b: "bins ?f' = bins f" by simp
  have cov': "parameter_covariance_matrix ?f' = Some g'" by simp
  have c': "g labels = g' (cov_labels (map epoch (bins f)))"
    using same by (simp add: labels)
  show "dmxparse ?f' = dmxparse f"
    unfolding dmxparse_cov[OF cov ne labels[THEN arg_cong[of _ _ g]] n]
      dmxparse_cov[OF cov', unfolded b, OF ne c' n] ..
next
  show "dmxparse f = Inl ValueError \<longleftrightarrow> \<not> (nrows (g labels) = n \<and> ncols (g labels) = n)"
    unfolding dmxparse_cov[OF cov ne labels[THEN arg_cong[of _ _ g]] n] by simp
qed

theorem dmxparse_covariance_request_witness:
  "parameter_covariance_matrix one_frozen_cov = Some identity_provider \<and>
   bins one_frozen_cov \<noteq> [] \<and>
   length (filter (\<lambda>b. \<not> frozen b) (bins one_frozen_cov)) = 2 \<and>
   length (cov_labels (map epoch (bins one_frozen_cov))) = 3 \<and>
   dmxparse one_frozen_cov = Inl ValueError"
proof -
  have cov: "parameter_covariance_matrix one_frozen_cov = Some identity_provider"
    by (simp add: one_frozen_cov_def)
  have ne: "bins one_frozen_cov \<noteq> []"
    by (simp add: one_frozen_cov_def one_frozen_def)
  have n: "2 = length (filter (\<lambda>b. \<not> frozen b) (bins one_frozen_cov))"
    by (simp add: one_frozen_cov_def one_frozen_def bin_at_def)
  note th = dmxparse_covariance_request[OF cov ne refl n]
  have len: "length (cov_labels (map epoch (bins one_frozen_cov))) = 3"
    using th by (simp add: one_frozen_cov_def one_frozen_def)
  then have "nrows (identity_provider (cov_labels (map epoch (bins one_frozen_cov)))) = 3"
    by (simp add: identity_provider_def np_identity_def)
  then have "dmxparse one_frozen_cov = Inl ValueError"
    using th by simp
  with cov ne n len show ?thesis by simp
qed

end
